theory Spec2Isabelle
  imports Main "HOL-Library.Word" "HOL-Library.Sublist"
begin

unbundle bit_operations_syntax

section \<open>Shared types (obd\_types.h)\<close>

text \<open>
  The library works on caller-owned buffers of fixed capacity and reports every outcome
  through the enumeration \<open>obd_result_t\<close>.  A function of the library is modelled by a
  HOL function returning the result code together with what the call stored in its output
  parameter: \<open>Some v\<close> when the call left the defined value \<open>v\<close> there, \<open>None\<close> when the
  output was not written, or was left without a defined content.  Pointer arguments are
  taken to be non-null; sizes (\<open>size_t\<close>) are natural numbers, bounded in any real call by
  the address space.
\<close>

datatype obd_result_t =
    OBD_OK
  | OBD_ERROR_INVALID_ARG
  | OBD_ERROR_BUFFER_TOO_SMALL
  | OBD_ERROR_INVALID_HEX
  | OBD_ERROR_NO_DATA
  | OBD_ERROR_ELM_ERROR
  | OBD_ERROR_PARSE_FAILED
  | OBD_ERROR_UNKNOWN_PID

datatype obd_elm_response_type_t =
    OBD_ELM_RESPONSE_DATA
  | OBD_ELM_RESPONSE_OK
  | OBD_ELM_RESPONSE_NO_DATA
  | OBD_ELM_RESPONSE_ERROR
  | OBD_ELM_RESPONSE_PROMPT
  | OBD_ELM_RESPONSE_UNKNOWN

type_synonym uint8_t = "8 word"
type_synonym uint16_t = "16 word"

definition OBD_MAX_DATA_BYTES :: nat where "OBD_MAX_DATA_BYTES = 7"
definition OBD_VIN_LENGTH :: nat where "OBD_VIN_LENGTH = 17"
definition OBD_DTC_CODE_LENGTH :: nat where "OBD_DTC_CODE_LENGTH = 6"
definition OBD_MAX_DTCS :: nat where "OBD_MAX_DTCS = 32"
definition OBD_MAX_RESPONSE_LEN :: nat where "OBD_MAX_RESPONSE_LEN = 256"

text \<open>
  A C string argument is a \<open>char\<close> array read up to its first NUL.  \<open>c_str\<close> gives the
  characters a callee sees of an array with the given content.
\<close>

definition c_str :: "string \<Rightarrow> string" where
  "c_str s = takeWhile (\<lambda>c. c \<noteq> CHR 0x00) s"

text \<open>
  The code of a character.  Every comparison below is against ASCII codes under 128, so the
  signedness of \<open>char\<close> plays no part.
\<close>

definition char_code :: "char \<Rightarrow> int" where
  "char_code c = of_char c"

section \<open>Hex codec (hex\_utils.c)\<close>

definition hex_char_to_nibble :: "char \<Rightarrow> int" where
  "hex_char_to_nibble c =
     (if char_code CHR ''0'' \<le> char_code c \<and> char_code c \<le> char_code CHR ''9''
        then char_code c - char_code CHR ''0''
      else if char_code CHR ''A'' \<le> char_code c \<and> char_code c \<le> char_code CHR ''F''
        then char_code c - char_code CHR ''A'' + 10
      else if char_code CHR ''a'' \<le> char_code c \<and> char_code c \<le> char_code CHR ''f''
        then char_code c - char_code CHR ''a'' + 10
      else - 1)"

definition is_whitespace :: "char \<Rightarrow> bool" where
  "is_whitespace c \<longleftrightarrow>
     c = CHR '' '' \<or> c = CHR 0x09 \<or> c = CHR 0x0D \<or> c = CHR 0x0A"

text \<open>
  The loop of \<open>obd_hex_to_bytes\<close>: \<open>cs\<close> is the text from \<open>hex[i]\<close> on, \<open>out\<close> the bytes
  stored so far (so \<open>o = length out\<close>).
\<close>

fun hex_to_bytes_loop ::
  "string \<Rightarrow> nat \<Rightarrow> uint8_t list \<Rightarrow> obd_result_t \<times> uint8_t list option" where
  "hex_to_bytes_loop [] out_size out = (OBD_OK, Some out)"
| "hex_to_bytes_loop (c # cs) out_size out =
     (if is_whitespace c then hex_to_bytes_loop cs out_size out
      else if hex_char_to_nibble c < 0 then (OBD_ERROR_INVALID_HEX, None)
      else (case cs of
              [] \<Rightarrow> (OBD_ERROR_INVALID_HEX, None)
            | d # ds \<Rightarrow>
                if hex_char_to_nibble d < 0 then (OBD_ERROR_INVALID_HEX, None)
                else if length out \<ge> out_size then (OBD_ERROR_BUFFER_TOO_SMALL, None)
                else hex_to_bytes_loop ds out_size
                       (out @ [word_of_int
                                 (push_bit 4 (hex_char_to_nibble c) OR hex_char_to_nibble d)])))"

definition obd_hex_to_bytes ::
  "string \<Rightarrow> nat \<Rightarrow> obd_result_t \<times> uint8_t list option" where
  "obd_hex_to_bytes hex out_size = hex_to_bytes_loop (c_str hex) out_size []"

definition hex_chars :: string where
  "hex_chars = ''0123456789ABCDEF''"

text \<open>
  The loop of \<open>obd_bytes_to_hex\<close> over the bytes from index \<open>i\<close> on; \<open>i < len - 1\<close> holds
  exactly when another byte follows.
\<close>

fun bytes_to_hex_loop :: "uint8_t list \<Rightarrow> string" where
  "bytes_to_hex_loop [] = []"
| "bytes_to_hex_loop (b # bs) =
     hex_chars ! unat (drop_bit 4 b AND 0x0F) # hex_chars ! unat (b AND 0x0F) #
     (if bs \<noteq> [] then CHR '' '' # bytes_to_hex_loop bs else bytes_to_hex_loop bs)"

definition obd_bytes_to_hex ::
  "uint8_t list \<Rightarrow> nat \<Rightarrow> obd_result_t \<times> string option" where
  "obd_bytes_to_hex bytes out_size =
     (if length bytes = 0 then (OBD_OK, if out_size > 0 then Some [] else None)
      else if out_size < length bytes * 3 then (OBD_ERROR_BUFFER_TOO_SMALL, None)
      else (OBD_OK, Some (bytes_to_hex_loop bytes)))"


section \<open>Adapter response classifier and cleaner (elm327.c)\<close>

text \<open>
  \<open>strncmp(a, b, n) == 0\<close> on NUL-free texts: the first \<open>n\<close> characters agree, a shorter
  text being different from a longer one.
\<close>

definition strncmp_eq :: "string \<Rightarrow> string \<Rightarrow> nat \<Rightarrow> bool" where
  "strncmp_eq a b n \<longleftrightarrow> take n a = take n b"

definition obd_elm327_classify_response :: "string \<Rightarrow> obd_elm_response_type_t" where
  "obd_elm327_classify_response response =
     (let p = dropWhile (\<lambda>c. c = CHR '' '' \<or> c = CHR 0x09 \<or> c = CHR 0x0D \<or> c = CHR 0x0A)
                (c_str response)
      in if p = [] then OBD_ELM_RESPONSE_UNKNOWN
         else if hd p = CHR ''>'' then OBD_ELM_RESPONSE_PROMPT
         else if strncmp_eq p ''OK'' 2 then OBD_ELM_RESPONSE_OK
         else if strncmp_eq p ''NO DATA'' 7 then OBD_ELM_RESPONSE_NO_DATA
         else if hd p = CHR ''?'' then OBD_ELM_RESPONSE_ERROR
         else if strncmp_eq p ''ERROR'' 5 \<or>
                 strncmp_eq p ''UNABLE TO CONNECT'' 17 \<or>
                 strncmp_eq p ''BUS INIT'' 8 \<or>
                 strncmp_eq p ''CAN ERROR'' 9 \<or>
                 strncmp_eq p ''STOPPED'' 7 then OBD_ELM_RESPONSE_ERROR
         else if strncmp_eq p ''ELM'' 3 then OBD_ELM_RESPONSE_OK
         else if hex_char_to_nibble (hd p) \<ge> 0 then OBD_ELM_RESPONSE_DATA
         else OBD_ELM_RESPONSE_UNKNOWN)"

text \<open>\<open>strstr(haystack, needle) != NULL\<close>: the needle occurs as a contiguous run.\<close>

fun strstr :: "string \<Rightarrow> string \<Rightarrow> bool" where
  "strstr [] needle \<longleftrightarrow> needle = []"
| "strstr (c # cs) needle \<longleftrightarrow> prefix needle (c # cs) \<or> strstr cs needle"

definition is_crlf :: "char \<Rightarrow> bool" where
  "is_crlf c \<longleftrightarrow> c = CHR 0x0D \<or> c = CHR 0x0A"

definition is_space_tab :: "char \<Rightarrow> bool" where
  "is_space_tab c \<longleftrightarrow> c = CHR '' '' \<or> c = CHR 0x09"

text \<open>A character inside a line of the cleaner: not CR, LF or the prompt.\<close>

definition in_line :: "char \<Rightarrow> bool" where
  "in_line c \<longleftrightarrow> c \<noteq> CHR 0x0D \<and> c \<noteq> CHR 0x0A \<and> c \<noteq> CHR ''>''"

text \<open>
  The body of the cleaner's loop for the line from \<open>line_start\<close> to \<open>p\<close>.  The state is
  the text stored in \<open>out\<close> so far (\<open>out_pos = length out\<close>) and \<open>found_data\<close>; every
  \<open>continue\<close> leaves it as it is, and \<open>None\<close> is the return of
  \<open>OBD_ERROR_BUFFER_TOO_SMALL\<close> from inside the loop.
\<close>

definition clean_line :: "string \<Rightarrow> nat \<Rightarrow> string \<times> bool \<Rightarrow> (string \<times> bool) option" where
  "clean_line line out_size st =
     (let out = fst st; found_data = snd st;
          lp = dropWhile is_space_tab line
      in if lp = [] then Some st
         else
           let line_len = (if length lp \<ge> OBD_MAX_RESPONSE_LEN
                           then OBD_MAX_RESPONSE_LEN - 1 else length lp);
               type = obd_elm327_classify_response (take line_len lp)
           in if type = OBD_ELM_RESPONSE_DATA then
                let hi = hex_char_to_nibble (lp ! 0);
                    lo = (if 1 < length lp then hex_char_to_nibble (lp ! 1) else - 1)
                in if hi < 0 \<or> lo < 0 then Some st
                   else if (push_bit 4 hi OR lo) < 0x40 then Some st
                   else
                     let out1 = (if found_data \<and> length out < out_size - 1
                                 then out @ [CHR 0x0D] else out)
                     in if length out1 + length lp \<ge> out_size then None
                        else Some (out1 @ lp, True)
              else Some st)"

function clean_response_loop ::
  "string \<Rightarrow> nat \<Rightarrow> string \<times> bool \<Rightarrow> (string \<times> bool) option" where
  "clean_response_loop p out_size st =
     (if p = [] then Some st
      else
        let p1 = dropWhile is_crlf p
        in if p1 = [] \<or> hd p1 = CHR ''>'' then Some st
           else (case clean_line (takeWhile in_line p1) out_size st of
                   None \<Rightarrow> None
                 | Some st' \<Rightarrow> clean_response_loop (dropWhile in_line p1) out_size st'))"
  by pat_completeness auto
termination
proof (relation "measure (\<lambda>(p, out_size, st). length p)")
  show "wf (measure (\<lambda>(p, out_size, st). length p))" by simp
next
  fix p :: string and out_size :: nat and st st' :: "string \<times> bool" and p1 :: string
  assume p1: "p1 = dropWhile is_crlf p" and ne: "\<not> (p1 = [] \<or> hd p1 = CHR ''>'')"
  from ne obtain c cs where c: "p1 = c # cs" by (cases p1) auto
  have "\<not> is_crlf c" using c p1 by (simp add: dropWhile_eq_Cons_conv)
  with ne c have "in_line c" by (simp add: in_line_def is_crlf_def)
  then have "length (dropWhile in_line p1) \<le> length cs"
    using c by (simp add: length_dropWhile_le)
  also have "length cs < length p1" using c by simp
  also have "length p1 \<le> length p" using p1 by (simp add: length_dropWhile_le)
  finally show "((dropWhile in_line p1, out_size, st'), (p, out_size, st))
                  \<in> measure (\<lambda>(p, out_size, st). length p)"
    by simp
qed

declare clean_response_loop.simps [simp del]

definition trim_trailing :: "string \<Rightarrow> string" where
  "trim_trailing out = rev (dropWhile is_space_tab (rev out))"

definition obd_elm327_clean_response :: "string \<Rightarrow> nat \<Rightarrow> obd_result_t \<times> string option" where
  "obd_elm327_clean_response raw out_size =
     (if out_size = 0 then (OBD_ERROR_INVALID_ARG, None)
      else (case clean_response_loop (c_str raw) out_size ([], False) of
              None \<Rightarrow> (OBD_ERROR_BUFFER_TOO_SMALL, None)
            | Some (out, found_data) \<Rightarrow>
                if \<not> found_data then
                  if strstr (c_str raw) ''NO DATA'' then (OBD_ERROR_NO_DATA, Some [])
                  else if strstr (c_str raw) ''?'' \<or> strstr (c_str raw) ''ERROR''
                    then (OBD_ERROR_ELM_ERROR, Some [])
                  else (OBD_ERROR_PARSE_FAILED, Some [])
                else (OBD_OK, Some (trim_trailing out))))"

section \<open>PID response parser (pid.c)\<close>

text \<open>
  \<open>data\<close> is the array of \<open>OBD_MAX_DATA_BYTES\<close> bytes of the struct: the parser clears
  it and copies \<open>data_len\<close> bytes into its front.
\<close>

record obd_pid_response_t =
  mode :: uint8_t
  pid :: uint8_t
  data :: "uint8_t list"
  data_len :: nat

definition obd_pid_parse_response ::
  "string \<Rightarrow> obd_result_t \<times> obd_pid_response_t option" where
  "obd_pid_parse_response response =
     (case obd_hex_to_bytes response (2 + OBD_MAX_DATA_BYTES) of
        (r, None) \<Rightarrow> (r, None)
      | (r, Some bytes) \<Rightarrow>
          if r \<noteq> OBD_OK then (r, None)
          else if length bytes < 2 then (OBD_ERROR_PARSE_FAILED, None)
          else
            let n = length bytes - 2;
                n' = (if n > OBD_MAX_DATA_BYTES then OBD_MAX_DATA_BYTES else n)
            in (OBD_OK,
                Some \<lparr>mode = bytes ! 0, pid = bytes ! 1,
                      data = take n' (drop 2 bytes) @ replicate (OBD_MAX_DATA_BYTES - n') 0,
                      data_len = n'\<rparr>))"

section \<open>Sensor decode table and evaluator (sensor.c)\<close>

text \<open>
  The formulas compute in single precision.  That arithmetic is not evaluated here: a
  value of type \<open>float\<close> is the expression the program computes, each node standing for
  one single-precision operation, \<open>Float_of_byte\<close> for the conversion \<open>(float)\<close> of a byte
  and \<open>Float_lit\<close> for a literal such as \<open>100.0f\<close>.  Each formula takes the data array and
  its length, as the function pointers of the table do.
\<close>

datatype float_t =
    Float_of_byte uint8_t
  | Float_lit int
  | Float_add float_t float_t
  | Float_sub float_t float_t
  | Float_mul float_t float_t
  | Float_div float_t float_t

definition formula_percent :: "uint8_t list \<Rightarrow> nat \<Rightarrow> float_t" where
  "formula_percent d n =
     Float_div (Float_mul (Float_of_byte (d ! 0)) (Float_lit 100)) (Float_lit 255)"

definition formula_temp_offset40 :: "uint8_t list \<Rightarrow> nat \<Rightarrow> float_t" where
  "formula_temp_offset40 d n = Float_sub (Float_of_byte (d ! 0)) (Float_lit 40)"

definition formula_rpm :: "uint8_t list \<Rightarrow> nat \<Rightarrow> float_t" where
  "formula_rpm d n =
     Float_div
       (Float_add (Float_mul (Float_of_byte (d ! 0)) (Float_lit 256)) (Float_of_byte (d ! 1)))
       (Float_lit 4)"

definition formula_direct :: "uint8_t list \<Rightarrow> nat \<Rightarrow> float_t" where
  "formula_direct d n = Float_of_byte (d ! 0)"

definition formula_timing_advance :: "uint8_t list \<Rightarrow> nat \<Rightarrow> float_t" where
  "formula_timing_advance d n =
     Float_sub (Float_div (Float_of_byte (d ! 0)) (Float_lit 2)) (Float_lit 64)"

definition formula_maf :: "uint8_t list \<Rightarrow> nat \<Rightarrow> float_t" where
  "formula_maf d n =
     Float_div
       (Float_add (Float_mul (Float_of_byte (d ! 0)) (Float_lit 256)) (Float_of_byte (d ! 1)))
       (Float_lit 100)"

definition formula_fuel_pressure :: "uint8_t list \<Rightarrow> nat \<Rightarrow> float_t" where
  "formula_fuel_pressure d n = Float_mul (Float_of_byte (d ! 0)) (Float_lit 3)"

definition formula_o2_voltage :: "uint8_t list \<Rightarrow> nat \<Rightarrow> float_t" where
  "formula_o2_voltage d n = Float_div (Float_of_byte (d ! 0)) (Float_lit 200)"

definition formula_runtime :: "uint8_t list \<Rightarrow> nat \<Rightarrow> float_t" where
  "formula_runtime d n =
     Float_add (Float_mul (Float_of_byte (d ! 0)) (Float_lit 256)) (Float_of_byte (d ! 1))"

definition formula_dtc_count :: "uint8_t list \<Rightarrow> nat \<Rightarrow> float_t" where
  "formula_dtc_count d n = Float_of_byte (d ! 0 AND 0x7F)"

definition formula_fuel_trim :: "uint8_t list \<Rightarrow> nat \<Rightarrow> float_t" where
  "formula_fuel_trim d n =
     Float_div (Float_mul (Float_sub (Float_of_byte (d ! 0)) (Float_lit 128)) (Float_lit 100))
       (Float_lit 128)"

record sensor_entry_t =
  se_pid :: uint8_t
  se_name :: string
  se_unit :: string
  se_byte_count :: uint8_t
  se_formula :: "uint8_t list \<Rightarrow> nat \<Rightarrow> float_t"

definition sensor_entry ::
  "uint8_t \<Rightarrow> string \<Rightarrow> string \<Rightarrow> uint8_t \<Rightarrow> (uint8_t list \<Rightarrow> nat \<Rightarrow> float_t) \<Rightarrow> sensor_entry_t" where
  "sensor_entry p nm u n f =
     \<lparr>se_pid = p, se_name = nm, se_unit = u, se_byte_count = n, se_formula = f\<rparr>"

definition sensor_table :: "sensor_entry_t list" where
  "sensor_table =
     [sensor_entry 0x01 ''DTC Count'' [] 4 formula_dtc_count,
      sensor_entry 0x04 ''Engine Load'' ''%'' 1 formula_percent,
      sensor_entry 0x05 ''Coolant Temperature'' ''C'' 1 formula_temp_offset40,
      sensor_entry 0x06 ''Short Term Fuel Trim B1'' ''%'' 1 formula_fuel_trim,
      sensor_entry 0x07 ''Long Term Fuel Trim B1'' ''%'' 1 formula_fuel_trim,
      sensor_entry 0x0A ''Fuel Pressure'' ''kPa'' 1 formula_fuel_pressure,
      sensor_entry 0x0B ''Intake Manifold Pressure'' ''kPa'' 1 formula_direct,
      sensor_entry 0x0C ''Engine RPM'' ''rpm'' 2 formula_rpm,
      sensor_entry 0x0D ''Vehicle Speed'' ''km/h'' 1 formula_direct,
      sensor_entry 0x0E ''Timing Advance'' ''deg'' 1 formula_timing_advance,
      sensor_entry 0x0F ''Intake Air Temperature'' ''C'' 1 formula_temp_offset40,
      sensor_entry 0x10 ''MAF Air Flow Rate'' ''g/s'' 2 formula_maf,
      sensor_entry 0x11 ''Throttle Position'' ''%'' 1 formula_percent,
      sensor_entry 0x14 ''O2 Sensor 1 Voltage'' ''V'' 1 formula_o2_voltage,
      sensor_entry 0x1F ''Run Time Since Start'' ''sec'' 2 formula_runtime]"

text \<open>The linear search over the entries from index \<open>i\<close> on.\<close>

fun find_sensor_entry_loop :: "sensor_entry_t list \<Rightarrow> uint8_t \<Rightarrow> sensor_entry_t option" where
  "find_sensor_entry_loop [] p = None"
| "find_sensor_entry_loop (e # es) p =
     (if se_pid e = p then Some e else find_sensor_entry_loop es p)"

definition find_sensor_entry :: "uint8_t \<Rightarrow> sensor_entry_t option" where
  "find_sensor_entry p = find_sensor_entry_loop sensor_table p"

record obd_sensor_value_t =
  sv_pid :: uint8_t
  sv_value :: float_t
  sv_name :: string
  sv_unit :: string

text \<open>
  \<open>strncpy(dst, src, n - 1); dst[n - 1] = '\0'\<close> leaves in \<open>dst\<close> the first \<open>n - 1\<close>
  characters of \<open>src\<close>.
\<close>

definition obd_sensor_decode ::
  "obd_pid_response_t \<Rightarrow> obd_result_t \<times> obd_sensor_value_t option" where
  "obd_sensor_decode response =
     (case find_sensor_entry (pid response) of
        None \<Rightarrow> (OBD_ERROR_UNKNOWN_PID, None)
      | Some entry \<Rightarrow>
          if data_len response < unat (se_byte_count entry) then (OBD_ERROR_PARSE_FAILED, None)
          else (OBD_OK,
                Some \<lparr>sv_pid = pid response,
                      sv_value = se_formula entry (data response) (data_len response),
                      sv_name = take (32 - 1) (se_name entry),
                      sv_unit = take (8 - 1) (se_unit entry)\<rparr>))"

definition obd_sensor_get_name :: "uint8_t \<Rightarrow> nat \<Rightarrow> obd_result_t \<times> string option" where
  "obd_sensor_get_name p name_size =
     (if name_size = 0 then (OBD_ERROR_INVALID_ARG, None)
      else (case find_sensor_entry p of
              None \<Rightarrow> (OBD_ERROR_UNKNOWN_PID, None)
            | Some entry \<Rightarrow> (OBD_OK, Some (take (name_size - 1) (se_name entry)))))"

section \<open>DTC decoder (dtc.c)\<close>

datatype obd_dtc_category_t =
  OBD_DTC_POWERTRAIN | OBD_DTC_CHASSIS | OBD_DTC_BODY | OBD_DTC_NETWORK

record obd_dtc_t =
  category :: obd_dtc_category_t
  code :: uint16_t
  formatted :: string

definition dtc_category_chars :: string where
  "dtc_category_chars = ''PCBU''"

text \<open>The cast of \<open>cat_bits\<close>, a value from 0 to 3, to the enumeration.\<close>

definition dtc_category_of :: "uint8_t \<Rightarrow> obd_dtc_category_t" where
  "dtc_category_of cat_bits =
     (if cat_bits = 0 then OBD_DTC_POWERTRAIN
      else if cat_bits = 1 then OBD_DTC_CHASSIS
      else if cat_bits = 2 then OBD_DTC_BODY
      else OBD_DTC_NETWORK)"

definition parse_single_dtc :: "uint8_t \<Rightarrow> uint8_t \<Rightarrow> obd_dtc_t" where
  "parse_single_dtc byte1 byte2 =
     (let cat_bits = drop_bit 6 byte1 AND 0x03;
          d2 = drop_bit 4 byte1 AND 0x03;
          d3 = byte1 AND 0x0F;
          d4 = drop_bit 4 byte2 AND 0x0F;
          d5 = byte2 AND 0x0F
      in \<lparr>category = dtc_category_of cat_bits,
          code = push_bit 12 (ucast d2) OR push_bit 8 (ucast d3) OR
                 push_bit 4 (ucast d4) OR ucast d5,
          formatted = [dtc_category_chars ! unat cat_bits,
                       char_of (of_char CHR ''0'' + unat d2),
                       hex_chars ! unat d3,
                       hex_chars ! unat d4,
                       hex_chars ! unat d5]\<rparr>)"

text \<open>
  The loop over the byte pairs: the first argument holds the bytes from index \<open>i\<close> on,
  so \<open>i + 1 < byte_count\<close> says that two of them are left; \<open>dtcs\<close> are the entries stored
  so far (\<open>count = length dtcs\<close>).
\<close>

fun dtc_loop :: "uint8_t list \<Rightarrow> obd_dtc_t list \<Rightarrow> obd_dtc_t list" where
  "dtc_loop (b1 # b2 # rest) dtcs =
     (if length dtcs < OBD_MAX_DTCS then
        (if b1 = 0x00 \<and> b2 = 0x00 then dtc_loop rest dtcs
         else dtc_loop rest (dtcs @ [parse_single_dtc b1 b2]))
      else dtcs)"
| "dtc_loop bs dtcs = dtcs"

definition obd_dtc_parse_response :: "string \<Rightarrow> obd_result_t \<times> obd_dtc_t list option" where
  "obd_dtc_parse_response response =
     (case obd_hex_to_bytes response 64 of
        (r, None) \<Rightarrow> (r, Some [])
      | (r, Some bytes) \<Rightarrow>
          if r \<noteq> OBD_OK then (r, Some [])
          else if length bytes < 1 then (OBD_ERROR_PARSE_FAILED, Some [])
          else if bytes ! 0 \<noteq> 0x43 then (OBD_ERROR_PARSE_FAILED, Some [])
          else (OBD_OK, Some (dtc_loop (drop 1 bytes) [])))"

section \<open>VIN reassembler (vin.c)\<close>

definition byte_char :: "uint8_t \<Rightarrow> char" where
  "byte_char b = char_of (unat b)"

text \<open>The inner loop over the data bytes of one frame, from index \<open>j\<close> on.\<close>

fun vin_append :: "uint8_t list \<Rightarrow> string \<Rightarrow> string" where
  "vin_append [] vin = vin"
| "vin_append (b # bs) vin =
     (if length vin < OBD_VIN_LENGTH then
        (if b = 0x00 then vin_append bs vin else vin_append bs (vin @ [byte_char b]))
      else vin)"

text \<open>The body of the outer loop for the line from \<open>line_start\<close> to \<open>p\<close>.\<close>

definition vin_line :: "string \<Rightarrow> string \<Rightarrow> string" where
  "vin_line line vin =
     (let line_len = (if length line \<ge> OBD_MAX_RESPONSE_LEN
                      then OBD_MAX_RESPONSE_LEN - 1 else length line);
          line_hex = take line_len line
      in case obd_hex_to_bytes line_hex 16 of
           (r, None) \<Rightarrow> vin
         | (r, Some line_bytes) \<Rightarrow>
             if r \<noteq> OBD_OK then vin
             else if length line_bytes < 4 \<or> line_bytes ! 0 \<noteq> 0x49 \<or> line_bytes ! 1 \<noteq> 0x02
               then vin
             else vin_append (drop 3 line_bytes) vin)"

function vin_loop :: "string \<Rightarrow> string \<Rightarrow> string" where
  "vin_loop p vin =
     (if p = [] \<or> \<not> length vin < OBD_VIN_LENGTH then vin
      else
        let p1 = dropWhile is_crlf p
        in if p1 = [] then vin
           else vin_loop (dropWhile (\<lambda>c. \<not> is_crlf c) p1)
                  (vin_line (takeWhile (\<lambda>c. \<not> is_crlf c) p1) vin))"
  by pat_completeness auto
termination
proof (relation "measure (\<lambda>(p, vin). length p)")
  show "wf (measure (\<lambda>(p, vin). length p))" by simp
next
  fix p vin p1 :: string
  assume p1: "p1 = dropWhile is_crlf p" and ne: "p1 \<noteq> []"
  from ne obtain c cs where c: "p1 = c # cs" by (cases p1) auto
  have "\<not> is_crlf c" using c p1 by (simp add: dropWhile_eq_Cons_conv)
  then have "length (dropWhile (\<lambda>c. \<not> is_crlf c) p1) \<le> length cs"
    using c by (simp add: length_dropWhile_le)
  also have "length cs < length p1" using c by simp
  also have "length p1 \<le> length p" using p1 by (simp add: length_dropWhile_le)
  finally show "((dropWhile (\<lambda>c. \<not> is_crlf c) p1,
                  vin_line (takeWhile (\<lambda>c. \<not> is_crlf c) p1) vin), (p, vin))
                  \<in> measure (\<lambda>(p, vin). length p)"
    by simp
qed

declare vin_loop.simps [simp del]

definition obd_vin_parse_response :: "string \<Rightarrow> nat \<Rightarrow> obd_result_t \<times> string option" where
  "obd_vin_parse_response response vin_size =
     (if vin_size = 0 then (OBD_ERROR_INVALID_ARG, None)
      else if vin_size < OBD_VIN_LENGTH + 1 then (OBD_ERROR_BUFFER_TOO_SMALL, None)
      else
        let vin = vin_loop (c_str response) []
        in if length vin \<noteq> OBD_VIN_LENGTH then (OBD_ERROR_PARSE_FAILED, Some vin)
           else (OBD_OK, Some vin))"

section \<open>Reference notions for the DTC decoder\<close>


text \<open>
  A byte sequence read two bytes at a time, an odd last byte being left over; the padding
  pair; the entry decoded from a pair.
\<close>

fun byte_pairs :: "uint8_t list \<Rightarrow> (uint8_t \<times> uint8_t) list" where
  "byte_pairs (b1 # b2 # rest) = (b1, b2) # byte_pairs rest"
| "byte_pairs bs = []"

definition is_padding_pair :: "uint8_t \<times> uint8_t \<Rightarrow> bool" where
  "is_padding_pair pr \<longleftrightarrow> fst pr = 0x00 \<and> snd pr = 0x00"

definition dtc_of_pair :: "uint8_t \<times> uint8_t \<Rightarrow> obd_dtc_t" where
  "dtc_of_pair pr = parse_single_dtc (fst pr) (snd pr)"

section \<open>Reference notions for the line-oriented parsers\<close>

text \<open>
  A text split at every CR and LF, and its lines: the segments that are not empty.
  \<open>vin_frame_chars\<close> gives the characters one line of a VIN response contributes: those
  of the non-zero bytes after the sequence number when the line (cut to the 255 characters
  of the line buffer) decodes, within 16 bytes, to at least four bytes that begin with
  \<open>0x49, 0x02\<close>, and none otherwise.
\<close>

fun split_crlf :: "string \<Rightarrow> string list" where
  "split_crlf [] = [[]]"
| "split_crlf (c # cs) =
     (if is_crlf c then [] # split_crlf cs
      else (case split_crlf cs of [] \<Rightarrow> [[c]] | l # ls \<Rightarrow> (c # l) # ls))"

definition crlf_lines :: "string \<Rightarrow> string list" where
  "crlf_lines s = filter (\<lambda>l. l \<noteq> []) (split_crlf s)"

definition vin_frame_chars :: "string \<Rightarrow> string" where
  "vin_frame_chars line =
     (case obd_hex_to_bytes (take (OBD_MAX_RESPONSE_LEN - 1) line) 16 of
        (r, None) \<Rightarrow> []
      | (r, Some bytes) \<Rightarrow>
          if r = OBD_OK \<and> 4 \<le> length bytes \<and> bytes ! 0 = 0x49 \<and> bytes ! 1 = 0x02
          then map byte_char (filter (\<lambda>b. b \<noteq> 0x00) (drop 3 bytes))
          else [])"

text \<open>
  The five-frame transcript of the VIN \<open>WBA3B5FK7FN123456\<close>, and a variant of it whose
  first frame carries a zero byte between \<open>W\<close> and \<open>B\<close>.
\<close>

definition vin_transcript :: string where
  "vin_transcript =
     ''49 02 01 57 42 41 33'' @ [CHR 0x0D] @
     ''49 02 02 42 35 46 4B'' @ [CHR 0x0D] @
     ''49 02 03 37 46 4E 31'' @ [CHR 0x0D] @
     ''49 02 04 32 33 34 35'' @ [CHR 0x0D] @
     ''49 02 05 36 00 00 00''"

definition vin_transcript_interior_null :: string where
  "vin_transcript_interior_null =
     ''49 02 01 57 00 42 41'' @ [CHR 0x0D] @
     ''49 02 02 33 42 35 46'' @ [CHR 0x0D] @
     ''49 02 03 4B 37 46 4E'' @ [CHR 0x0D] @
     ''49 02 04 31 32 33 34'' @ [CHR 0x0D] @
     ''49 02 05 35 36 00 00''"

section \<open>Reference notions for the response cleaner\<close>

text \<open>
  The lines the cleaner looks at are those of the text before the first prompt
  character.  \<open>line_first_byte\<close> is the byte that the first two characters of a line spell
  in hex, if they do.  A line, its leading spaces and tabs removed, is kept when the
  classifier (which sees its first 255 characters) calls it Data and its first byte is at
  least \<open>0x40\<close>.  \<open>join_cr\<close> puts a single CR between consecutive lines, and \<open>add_line\<close>
  appends one line to a payload in that manner.
\<close>

definition elm_lines :: "string \<Rightarrow> string list" where
  "elm_lines raw = crlf_lines (takeWhile (\<lambda>c. c \<noteq> CHR ''>'') raw)"

definition line_first_byte :: "string \<Rightarrow> int option" where
  "line_first_byte lp =
     (case lp of
        c # d # rest \<Rightarrow>
          if 0 \<le> hex_char_to_nibble c \<and> 0 \<le> hex_char_to_nibble d
          then Some (16 * hex_char_to_nibble c + hex_char_to_nibble d) else None
      | _ \<Rightarrow> None)"

definition kept_line :: "string \<Rightarrow> bool" where
  "kept_line lp \<longleftrightarrow>
     obd_elm327_classify_response (take (OBD_MAX_RESPONSE_LEN - 1) lp) = OBD_ELM_RESPONSE_DATA \<and>
     (case line_first_byte lp of None \<Rightarrow> False | Some b \<Rightarrow> 0x40 \<le> b)"

definition data_lines :: "string \<Rightarrow> string list" where
  "data_lines raw = filter kept_line (map (dropWhile is_space_tab) (elm_lines raw))"

fun join_cr :: "string list \<Rightarrow> string" where
  "join_cr [] = []"
| "join_cr [l] = l"
| "join_cr (l # ls) = l @ CHR 0x0D # join_cr ls"

definition add_line :: "string \<Rightarrow> string \<Rightarrow> string" where
  "add_line out lp = (if out = [] then lp else out @ CHR 0x0D # lp)"

text \<open>
  Transcripts: the echoed RPM request with its answer, a request answered by \<open>NO DATA\<close>,
  and a line whose first byte \<open>0x81\<close> has bit \<open>0x40\<close> clear.
\<close>

definition rpm_transcript :: string where
  "rpm_transcript = ''010C'' @ [CHR 0x0D] @ ''41 0C 1A F8'' @ [CHR 0x0D, CHR 0x0D] @ ''>''"

definition no_data_transcript :: string where
  "no_data_transcript = ''0100'' @ [CHR 0x0D] @ ''NO DATA'' @ [CHR 0x0D, CHR 0x0D] @ ''>''"

definition high_bit_transcript :: string where
  "high_bit_transcript = ''81 0C'' @ [CHR 0x0D] @ ''>''"

section \<open>Properties of the hex codec\<close>

lemma hex_chars_nibble: "k < 16 \<Longrightarrow> hex_char_to_nibble (hex_chars ! k) = int k"
proof -
  assume "k < 16"
  then have "k \<in> set [0..<16]" by simp
  then show ?thesis
    by (auto simp add: upt_rec hex_chars_def hex_char_to_nibble_def char_code_def)
qed

lemma hex_chars_not_whitespace: "k < 16 \<Longrightarrow> \<not> is_whitespace (hex_chars ! k)"
proof -
  assume "k < 16"
  then have "k \<in> set [0..<16]" by simp
  then show ?thesis
    by (auto simp add: upt_rec hex_chars_def is_whitespace_def)
qed

lemma hex_chars_not_nul: "k < 16 \<Longrightarrow> hex_chars ! k \<noteq> CHR 0x00"
proof -
  assume "k < 16"
  then have "k \<in> set [0..<16]" by simp
  then show ?thesis
    by (auto simp add: upt_rec hex_chars_def)
qed

lemma fifteen_mask: "(0x0F :: uint8_t) = mask 4"
  by (simp add: mask_eq_exp_minus_1)

lemma low_nibble_less: "unat ((b :: uint8_t) AND 0x0F) < 16"
proof -
  have "unat (b AND 0x0F) \<le> unat (0x0F :: uint8_t)"
    by (rule word_and_le1 [THEN word_le_nat_alt [THEN iffD1]])
  then show ?thesis by simp
qed

lemma nibbles_recombine:
  "word_of_int (push_bit 4 (uint (drop_bit 4 b AND 0x0F)) OR uint (b AND 0x0F)) = (b :: uint8_t)"
  unfolding fifteen_mask
  by (rule bit_word_eqI) (auto simp add: bit_simps)

lemma hex_to_bytes_loop_digits:
  "hex_to_bytes_loop
     (hex_chars ! unat (drop_bit 4 b AND 0x0F) # hex_chars ! unat (b AND 0x0F) # rest) n acc =
     (if n \<le> length acc then (OBD_ERROR_BUFFER_TOO_SMALL, None)
      else hex_to_bytes_loop rest n (acc @ [b]))"
  by (simp add: hex_chars_not_whitespace hex_chars_nibble low_nibble_less nibbles_recombine)

lemma hex_to_bytes_loop_encoded:
  "length acc + length B \<le> n \<Longrightarrow>
   hex_to_bytes_loop (bytes_to_hex_loop B) n acc = (OBD_OK, Some (acc @ B))"
proof (induction B arbitrary: acc)
  case Nil
  then show ?case by simp
next
  case (Cons b bs)
  have "length (acc @ [b]) + length bs \<le> n" using Cons.prems by simp
  from Cons.IH [OF this] Cons.prems show ?case
    by (simp add: hex_to_bytes_loop_digits is_whitespace_def del: hex_to_bytes_loop.simps(2))
      (simp add: is_whitespace_def)
qed

lemma bytes_to_hex_loop_no_nul: "CHR 0x00 \<notin> set (bytes_to_hex_loop B)"
  using hex_chars_not_nul [OF low_nibble_less] by (induction B) (auto dest: sym)

lemma c_str_no_nul: "CHR 0x00 \<notin> set s \<Longrightarrow> c_str s = s"
  by (auto simp add: c_str_def)

text \<open>
  Claim C4.  Encoding a byte sequence \<open>B\<close> with \<open>obd_bytes_to_hex\<close> into a buffer that
  holds the text and its terminator (three characters per byte, at least one), and
  decoding the text with \<open>obd_hex_to_bytes\<close> into a buffer of at least \<open>length B\<close> bytes,
  succeeds at both steps and gives back exactly \<open>B\<close>.
\<close>

theorem hex_codec_roundtrip:
  assumes "max 1 (3 * length B) \<le> hex_size" and "length B \<le> out_size"
  shows "\<exists>h. obd_bytes_to_hex B hex_size = (OBD_OK, Some h) \<and>
             obd_hex_to_bytes h out_size = (OBD_OK, Some B)"
proof (cases "B = []")
  case True
  with assms show ?thesis
    by (simp add: obd_bytes_to_hex_def obd_hex_to_bytes_def c_str_def)
next
  case False
  with assms have "obd_bytes_to_hex B hex_size = (OBD_OK, Some (bytes_to_hex_loop B))"
    by (simp add: obd_bytes_to_hex_def mult.commute)
  moreover have "obd_hex_to_bytes (bytes_to_hex_loop B) out_size = (OBD_OK, Some B)"
    using hex_to_bytes_loop_encoded [of "[]" B out_size] assms(2)
    by (simp add: obd_hex_to_bytes_def c_str_no_nul bytes_to_hex_loop_no_nul)
  ultimately show ?thesis by simp
qed

theorem hex_codec_roundtrip_witness:
  "max 1 (3 * length [0x41, 0x0C, 0x1A, 0xF8 :: uint8_t]) \<le> (12 :: nat) \<and>
   length [0x41, 0x0C, 0x1A, 0xF8 :: uint8_t] \<le> (4 :: nat) \<and>
   (\<exists>h. obd_bytes_to_hex [0x41, 0x0C, 0x1A, 0xF8] 12 = (OBD_OK, Some h) \<and>
        obd_hex_to_bytes h 4 = (OBD_OK, Some [0x41, 0x0C, 0x1A, 0xF8]))"
  using hex_codec_roundtrip [of "[0x41, 0x0C, 0x1A, 0xF8]" 12 4] by simp

section \<open>Properties of the PID response parser\<close>

lemma hex_to_bytes_loop_extends:
  "hex_to_bytes_loop s n acc = (OBD_OK, Some bs) \<Longrightarrow> \<exists>ys. bs = acc @ ys"
  by (induction s n acc rule: hex_to_bytes_loop.induct)
     (auto split: if_splits list.splits)

lemma hex_to_bytes_loop_ok_iff:
  "hex_to_bytes_loop s n acc = (r, v) \<Longrightarrow> (r = OBD_OK) = (v \<noteq> None)"
  by (induction s n acc arbitrary: r v rule: hex_to_bytes_loop.induct)
     (auto split: if_splits list.splits)

lemma hex_to_bytes_loop_larger:
  "hex_to_bytes_loop s n acc = (OBD_OK, Some bs) \<Longrightarrow> length bs \<le> m \<Longrightarrow>
   hex_to_bytes_loop s m acc = (OBD_OK, Some bs)"
proof (induction s n acc rule: hex_to_bytes_loop.induct)
  case (1 out_size out)
  then show ?case by simp
next
  case (2 c cs out_size out)
  show ?case
  proof (cases "is_whitespace c")
    case True
    with 2 show ?thesis by simp
  next
    case False
    with "2.prems" obtain d ds where cs: "cs = d # ds" 
      and ok: "\<not> hex_char_to_nibble c < 0" "\<not> hex_char_to_nibble d < 0" "\<not> out_size \<le> length out"
      and rec: "hex_to_bytes_loop ds out_size (out @ [word_of_int (push_bit 4 (hex_char_to_nibble c) OR hex_char_to_nibble d)]) = (OBD_OK, Some bs)"
      by (auto split: if_splits list.splits)
    from hex_to_bytes_loop_extends [OF rec] "2.prems"(2) have "length out < m" by auto
    with "2.IH"(2) [OF False ok(1) cs ok(2) _ rec "2.prems"(2)] ok False cs show ?thesis
      by simp
  qed
qed

lemma hex_to_bytes_loop_smaller:
  "hex_to_bytes_loop s n acc = (OBD_OK, Some bs) \<Longrightarrow> m < length bs \<Longrightarrow> length acc \<le> m \<Longrightarrow>
   hex_to_bytes_loop s m acc = (OBD_ERROR_BUFFER_TOO_SMALL, None)"
proof (induction s n acc rule: hex_to_bytes_loop.induct)
  case (1 out_size out)
  then show ?case by simp
next
  case (2 c cs out_size out)
  show ?case
  proof (cases "is_whitespace c")
    case True
    with 2 show ?thesis by simp
  next
    case False
    with "2.prems" obtain d ds where cs: "cs = d # ds" 
      and ok: "\<not> hex_char_to_nibble c < 0" "\<not> hex_char_to_nibble d < 0" "\<not> out_size \<le> length out"
      and rec: "hex_to_bytes_loop ds out_size (out @ [word_of_int (push_bit 4 (hex_char_to_nibble c) OR hex_char_to_nibble d)]) = (OBD_OK, Some bs)"
      by (auto split: if_splits list.splits)
    show ?thesis
    proof (cases "m \<le> length out")
      case True
      with ok False cs show ?thesis by simp
    next
      case F: False
      with "2.IH"(2) [OF False ok(1) cs ok(2) _ rec "2.prems"(2)] ok False cs show ?thesis
        by simp
    qed
  qed
qed


text \<open>
  The outcome of the parser by the number of bytes the payload spells.  Decoding goes into
  a local buffer of \<open>2 + OBD_MAX_DATA_BYTES = 9\<close> bytes, so a payload of more than 9 bytes
  never reaches the statement that clamps \<open>data_len\<close>: the decoder's capacity error is
  passed on.
\<close>

lemma pid_parse_response_by_length:
  assumes "obd_hex_to_bytes response cap = (OBD_OK, Some bytes)" and "2 \<le> length bytes"
  shows "obd_pid_parse_response response =
           (if length bytes \<le> 2 + OBD_MAX_DATA_BYTES
            then (OBD_OK,
                  Some \<lparr>mode = bytes ! 0, pid = bytes ! 1,
                        data = drop 2 bytes @ replicate (2 + OBD_MAX_DATA_BYTES - length bytes) 0,
                        data_len = min (length bytes - 2) OBD_MAX_DATA_BYTES\<rparr>)
            else (OBD_ERROR_BUFFER_TOO_SMALL, None))"
proof (cases "length bytes \<le> 2 + OBD_MAX_DATA_BYTES")
  case True
  from assms(1) have "obd_hex_to_bytes response (2 + OBD_MAX_DATA_BYTES) = (OBD_OK, Some bytes)"
    unfolding obd_hex_to_bytes_def by (rule hex_to_bytes_loop_larger) (rule True)
  moreover from True have "length bytes - 2 \<le> OBD_MAX_DATA_BYTES" by simp
  ultimately show ?thesis using True assms(2)
    by (simp add: obd_pid_parse_response_def Let_def min_def)
next
  case False
  from assms(1) have "obd_hex_to_bytes response (2 + OBD_MAX_DATA_BYTES) =
      (OBD_ERROR_BUFFER_TOO_SMALL, None)"
    unfolding obd_hex_to_bytes_def using False by (intro hex_to_bytes_loop_smaller) auto
  with False show ?thesis
    by (simp add: obd_pid_parse_response_def)
qed

text \<open>
  Claim C1.  The claim: every well-formed payload of \<open>n \<ge> 2\<close> bytes parses, byte 0 the
  mode, byte 1 the pid, the data capped at 7 bytes with the excess dropped, so that
  \<open>data_len = min (n - 2) 7\<close>.  The program has the cap (it clamps \<open>data_len\<close> to
  \<open>OBD_MAX_DATA_BYTES\<close>) but does not reach it: the payload
  \<open>41 0C 01 02 03 04 05 06 07 08\<close> is well-formed hex for ten bytes, and the call returns
  \<open>OBD_ERROR_BUFFER_TOO_SMALL\<close> with no response stored, where the claim gives mode
  \<open>0x41\<close>, pid \<open>0x0C\<close> and the seven data bytes \<open>01\<close> to \<open>07\<close>.
\<close>

theorem pid_parse_response_long_payload_rejected:
  "obd_hex_to_bytes ''41 0C 01 02 03 04 05 06 07 08'' 10 =
      (OBD_OK, Some [0x41, 0x0C, 1, 2, 3, 4, 5, 6, 7, 8]) \<and>
   obd_pid_parse_response ''41 0C 01 02 03 04 05 06 07 08'' =
      (OBD_ERROR_BUFFER_TOO_SMALL, None)"
  by code_simp

section \<open>Properties of the classifier\<close>

lemma strncmp_eq_prefix: "n = length lit \<Longrightarrow> strncmp_eq p lit n \<longleftrightarrow> prefix lit p"
proof -
  assume n: "n = length lit"
  show ?thesis
  proof
    assume "strncmp_eq p lit n"
    then have "take n p = lit" using n by (simp add: strncmp_eq_def)
    then have "p = lit @ drop n p" by (metis append_take_drop_id)
    then show "prefix lit p" by (metis prefixI)
  next
    assume "prefix lit p"
    then obtain zs where "p = lit @ zs" by (auto simp: prefix_def)
    then show "strncmp_eq p lit n" using n by (simp add: strncmp_eq_def)
  qed
qed

lemma hd_eq_prefix: "p \<noteq> [] \<Longrightarrow> hd p = c \<longleftrightarrow> prefix [c] p"
  by (cases p) auto

lemma hex_digit_iff:
  "hex_char_to_nibble c \<ge> 0 \<longleftrightarrow> c \<in> set ''0123456789ABCDEFabcdef''"
proof -
  show ?thesis
  proof
    assume "hex_char_to_nibble c \<ge> 0"
    then have "of_char c \<in> {48..57::int} \<or> of_char c \<in> {65..70::int} \<or> of_char c \<in> {97..102::int}"
      by (auto simp: hex_char_to_nibble_def char_code_def split: if_splits)
    then have "(of_char c :: int) \<in> of_char ` set ''0123456789ABCDEFabcdef''"
      by simp presburger
    then show "c \<in> set ''0123456789ABCDEFabcdef''"
      by (simp only: inj_image_mem_iff [OF inj_of_char])
  next
    assume "c \<in> set ''0123456789ABCDEFabcdef''"
    then show "hex_char_to_nibble c \<ge> 0"
      by (auto simp: hex_char_to_nibble_def char_code_def)
  qed
qed

text \<open>
  Claim C5.  \<open>obd_elm327_classify_response\<close> drops leading spaces, tabs, CR and LF and
  then answers: Unknown for an empty rest; Prompt for a leading \<open>>\<close>; Ok for the prefix
  \<open>OK\<close> or \<open>ELM\<close>; NoData for \<open>NO DATA\<close>; Error for a leading \<open>?\<close> or one of the
  prefixes \<open>ERROR\<close>, \<open>UNABLE TO CONNECT\<close>, \<open>BUS INIT\<close>, \<open>CAN ERROR\<close>, \<open>STOPPED\<close>; else
  Data when the first character is a hex digit; else Unknown.  The tokens are tested
  before the hex digit, so \<open>" OK"\<close>, \<open>"OK"\<close> and \<open>"ELM327 v1.5"\<close> are all Ok.
\<close>

theorem classify_response_cases:
  "obd_elm327_classify_response line =
     (let p = dropWhile is_whitespace (c_str line)
      in if p = [] then OBD_ELM_RESPONSE_UNKNOWN
         else if prefix ''>'' p then OBD_ELM_RESPONSE_PROMPT
         else if prefix ''OK'' p \<or> prefix ''ELM'' p then OBD_ELM_RESPONSE_OK
         else if prefix ''NO DATA'' p then OBD_ELM_RESPONSE_NO_DATA
         else if prefix ''?'' p \<or> prefix ''ERROR'' p \<or> prefix ''UNABLE TO CONNECT'' p \<or>
                 prefix ''BUS INIT'' p \<or> prefix ''CAN ERROR'' p \<or> prefix ''STOPPED'' p
           then OBD_ELM_RESPONSE_ERROR
         else if hd p \<in> set ''0123456789ABCDEFabcdef'' then OBD_ELM_RESPONSE_DATA
         else OBD_ELM_RESPONSE_UNKNOWN) \<and>
   obd_elm327_classify_response '' OK'' = OBD_ELM_RESPONSE_OK \<and>
   obd_elm327_classify_response ''OK'' = OBD_ELM_RESPONSE_OK \<and>
   obd_elm327_classify_response ''ELM327 v1.5'' = OBD_ELM_RESPONSE_OK"
proof -
  have ws: "(\<lambda>c. c = CHR '' '' \<or> c = CHR 0x09 \<or> c = CHR 0x0D \<or> c = CHR 0x0A) = is_whitespace"
    by (simp add: is_whitespace_def fun_eq_iff)
  define p where "p = dropWhile is_whitespace (c_str line)"
  have excl: "prefix ''ELM'' p \<Longrightarrow>
      \<not> prefix ''NO DATA'' p \<and> \<not> prefix ''?'' p \<and> \<not> prefix ''ERROR'' p \<and>
      \<not> prefix ''UNABLE TO CONNECT'' p \<and> \<not> prefix ''BUS INIT'' p \<and>
      \<not> prefix ''CAN ERROR'' p \<and> \<not> prefix ''STOPPED'' p"
    by (auto simp: prefix_def)
  have general: "obd_elm327_classify_response line =
     (if p = [] then OBD_ELM_RESPONSE_UNKNOWN
         else if prefix ''>'' p then OBD_ELM_RESPONSE_PROMPT
         else if prefix ''OK'' p \<or> prefix ''ELM'' p then OBD_ELM_RESPONSE_OK
         else if prefix ''NO DATA'' p then OBD_ELM_RESPONSE_NO_DATA
         else if prefix ''?'' p \<or> prefix ''ERROR'' p \<or> prefix ''UNABLE TO CONNECT'' p \<or>
                 prefix ''BUS INIT'' p \<or> prefix ''CAN ERROR'' p \<or> prefix ''STOPPED'' p
           then OBD_ELM_RESPONSE_ERROR
         else if hd p \<in> set ''0123456789ABCDEFabcdef'' then OBD_ELM_RESPONSE_DATA
         else OBD_ELM_RESPONSE_UNKNOWN)"
    unfolding obd_elm327_classify_response_def ws Let_def p_def [symmetric]
    using excl
    by (auto simp add: strncmp_eq_prefix hd_eq_prefix hex_digit_iff [symmetric] simp del: set_simps)
  have "obd_elm327_classify_response '' OK'' = OBD_ELM_RESPONSE_OK" by code_simp
  moreover have "obd_elm327_classify_response ''OK'' = OBD_ELM_RESPONSE_OK" by code_simp
  moreover have "obd_elm327_classify_response ''ELM327 v1.5'' = OBD_ELM_RESPONSE_OK" by code_simp
  ultimately show ?thesis using general by (simp only: Let_def p_def) 
qed

section \<open>Properties of the DTC decoder\<close>













lemma dtc_loop_pairs:
  "length dtcs \<le> OBD_MAX_DTCS \<Longrightarrow>
   dtc_loop bs dtcs =
     take OBD_MAX_DTCS
       (dtcs @ map dtc_of_pair (filter (\<lambda>pr. \<not> is_padding_pair pr) (byte_pairs bs)))"
proof (induction bs dtcs rule: dtc_loop.induct)
  case (1 b1 b2 rest dtcs)
  then show ?case
    by (auto simp: is_padding_pair_def dtc_of_pair_def)
qed simp_all

text \<open>
  Claim C7.  When the response decodes to the bytes \<open>b # bs\<close>, the parser fails with
  \<open>OBD_ERROR_PARSE_FAILED\<close> unless \<open>b = 0x43\<close>, and otherwise reads \<open>bs\<close> in pairs,
  drops the \<open>0x00, 0x00\<close> pairs and stores the decoded others in order, up to
  \<open>OBD_MAX_DTCS\<close> of them.  \<open>43 01 03 01 04 00 00\<close> gives exactly \<open>P0103\<close> then \<open>P0104\<close>,
  and \<open>43 C1 23 00 00 00 00\<close> gives the one Network entry \<open>U0123\<close>.
\<close>

theorem dtc_parse_response_pairs:
  "(obd_hex_to_bytes response 64 = (OBD_OK, Some (b # bs)) \<longrightarrow>
      obd_dtc_parse_response response =
        (if b = 0x43
         then (OBD_OK,
               Some (take OBD_MAX_DTCS
                       (map dtc_of_pair
                          (filter (\<lambda>pr. \<not> is_padding_pair pr) (byte_pairs bs)))))
         else (OBD_ERROR_PARSE_FAILED, Some []))) \<and>
   obd_dtc_parse_response ''43 01 03 01 04 00 00'' =
     (OBD_OK, Some [\<lparr>category = OBD_DTC_POWERTRAIN, code = 0x0103, formatted = ''P0103''\<rparr>,
                    \<lparr>category = OBD_DTC_POWERTRAIN, code = 0x0104, formatted = ''P0104''\<rparr>]) \<and>
   obd_dtc_parse_response ''43 C1 23 00 00 00 00'' =
     (OBD_OK, Some [\<lparr>category = OBD_DTC_NETWORK, code = 0x0123, formatted = ''U0123''\<rparr>])"
proof (intro conjI impI)
  assume "obd_hex_to_bytes response 64 = (OBD_OK, Some (b # bs))"
  then show "obd_dtc_parse_response response =
        (if b = 0x43
         then (OBD_OK,
               Some (take OBD_MAX_DTCS
                       (map dtc_of_pair
                          (filter (\<lambda>pr. \<not> is_padding_pair pr) (byte_pairs bs)))))
         else (OBD_ERROR_PARSE_FAILED, Some []))"
    using dtc_loop_pairs [of "[]" bs]
    by (simp add: obd_dtc_parse_response_def)
next
  show "obd_dtc_parse_response ''43 01 03 01 04 00 00'' =
     (OBD_OK, Some [\<lparr>category = OBD_DTC_POWERTRAIN, code = 0x0103, formatted = ''P0103''\<rparr>,
                    \<lparr>category = OBD_DTC_POWERTRAIN, code = 0x0104, formatted = ''P0104''\<rparr>])"
    by code_simp
next
  show "obd_dtc_parse_response ''43 C1 23 00 00 00 00'' =
     (OBD_OK, Some [\<lparr>category = OBD_DTC_NETWORK, code = 0x0123, formatted = ''U0123''\<rparr>])"
    by code_simp
qed

theorem dtc_parse_response_pairs_witness:
  "obd_hex_to_bytes ''43 01 03 00 00 01 04 05'' 64 = (OBD_OK, Some [0x43, 1, 3, 0, 0, 1, 4, 5]) \<and>
   obd_dtc_parse_response ''43 01 03 00 00 01 04 05'' =
     (OBD_OK, Some [\<lparr>category = OBD_DTC_POWERTRAIN, code = 0x0103, formatted = ''P0103''\<rparr>,
                    \<lparr>category = OBD_DTC_POWERTRAIN, code = 0x0104, formatted = ''P0104''\<rparr>]) \<and>
   obd_hex_to_bytes ''41 0C'' 64 = (OBD_OK, Some [0x41, 0x0C]) \<and>
   obd_dtc_parse_response ''41 0C'' = (OBD_ERROR_PARSE_FAILED, Some [])"
proof -
  have h1: "obd_hex_to_bytes ''43 01 03 00 00 01 04 05'' 64 =
              (OBD_OK, Some [0x43, 1, 3, 0, 0, 1, 4, 5])"
    by code_simp
  have h2: "obd_hex_to_bytes ''41 0C'' 64 = (OBD_OK, Some [0x41, 0x0C])"
    by code_simp
  have e: "take OBD_MAX_DTCS (map dtc_of_pair
             (filter (\<lambda>pr. \<not> is_padding_pair pr) (byte_pairs [1, 3, 0, 0, 1, 4, 5]))) =
           [\<lparr>category = OBD_DTC_POWERTRAIN, code = 0x0103, formatted = ''P0103''\<rparr>,
            \<lparr>category = OBD_DTC_POWERTRAIN, code = 0x0104, formatted = ''P0104''\<rparr>]"
    by code_simp
  from dtc_parse_response_pairs [of "''43 01 03 00 00 01 04 05''" "0x43" "[1, 3, 0, 0, 1, 4, 5]"]
       dtc_parse_response_pairs [of "''41 0C''" "0x41" "[0x0C]"] h1 h2 e
  show ?thesis by simp
qed

section \<open>Properties of the sensor evaluator\<close>

lemma find_sensor_entry_loop_None:
  "find_sensor_entry_loop es p = None \<longleftrightarrow> p \<notin> se_pid ` set es"
  by (induction es) auto

lemma find_sensor_entry_loop_member:
  "distinct (map se_pid es) \<Longrightarrow> e \<in> set es \<Longrightarrow>
   find_sensor_entry_loop es (se_pid e) = Some e"
  by (induction es) (auto simp: rev_image_eqI)

lemma sensor_table_distinct: "distinct (map se_pid sensor_table)"
  by (simp add: sensor_table_def sensor_entry_def)

text \<open>
  Claim C8.  For a pid that no entry of the sensor table carries, \<open>obd_sensor_decode\<close>
  returns \<open>OBD_ERROR_UNKNOWN_PID\<close> and so does \<open>obd_sensor_get_name\<close> (called with a
  buffer of at least one character), and neither stores anything in its output.  For a
  pid of the table, \<open>obd_sensor_decode\<close> returns \<open>OBD_ERROR_PARSE_FAILED\<close> when
  \<open>data_len\<close> is below the byte count of its entry.
\<close>

theorem sensor_unknown_pid_and_short_data:
  "(pid response \<notin> se_pid ` set sensor_table \<longrightarrow>
      obd_sensor_decode response = (OBD_ERROR_UNKNOWN_PID, None)) \<and>
   (p \<notin> se_pid ` set sensor_table \<and> 0 < name_size \<longrightarrow>
      obd_sensor_get_name p name_size = (OBD_ERROR_UNKNOWN_PID, None)) \<and>
   (entry \<in> set sensor_table \<and> se_pid entry = pid response \<and>
    data_len response < unat (se_byte_count entry) \<longrightarrow>
      obd_sensor_decode response = (OBD_ERROR_PARSE_FAILED, None))"
proof (intro conjI impI)
  assume "pid response \<notin> se_pid ` set sensor_table"
  then have "find_sensor_entry (pid response) = None"
    by (simp add: find_sensor_entry_def find_sensor_entry_loop_None)
  then show "obd_sensor_decode response = (OBD_ERROR_UNKNOWN_PID, None)"
    by (simp add: obd_sensor_decode_def)
next
  assume "p \<notin> se_pid ` set sensor_table \<and> 0 < name_size"
  then have "find_sensor_entry p = None" and "name_size \<noteq> 0"
    by (simp_all add: find_sensor_entry_def find_sensor_entry_loop_None)
  then show "obd_sensor_get_name p name_size = (OBD_ERROR_UNKNOWN_PID, None)"
    by (simp add: obd_sensor_get_name_def)
next
  assume a: "entry \<in> set sensor_table \<and> se_pid entry = pid response \<and>
    data_len response < unat (se_byte_count entry)"
  then have "find_sensor_entry (pid response) = Some entry"
    using find_sensor_entry_loop_member [OF sensor_table_distinct, of entry]
    by (simp add: find_sensor_entry_def)
  with a show "obd_sensor_decode response = (OBD_ERROR_PARSE_FAILED, None)"
    by (simp add: obd_sensor_decode_def)
qed

theorem sensor_unknown_pid_and_short_data_witness:
  "(0x02 :: uint8_t) \<notin> se_pid ` set sensor_table \<and>
   obd_sensor_decode \<lparr>mode = 0x41, pid = 0x02, data = [0x3C, 0, 0, 0, 0, 0, 0], data_len = 1\<rparr> =
     (OBD_ERROR_UNKNOWN_PID, None) \<and>
   obd_sensor_get_name 0x02 32 = (OBD_ERROR_UNKNOWN_PID, None) \<and>
   sensor_entry 0x0C ''Engine RPM'' ''rpm'' 2 formula_rpm \<in> set sensor_table \<and>
   obd_sensor_decode \<lparr>mode = 0x41, pid = 0x0C, data = [0x1A, 0, 0, 0, 0, 0, 0], data_len = 1\<rparr> =
     (OBD_ERROR_PARSE_FAILED, None)"
proof -
  have absent: "(0x02 :: uint8_t) \<notin> se_pid ` set sensor_table"
    by (simp add: sensor_table_def sensor_entry_def)
  have present: "sensor_entry 0x0C ''Engine RPM'' ''rpm'' 2 formula_rpm \<in> set sensor_table"
    by (simp add: sensor_table_def)
  from sensor_unknown_pid_and_short_data
         [of "\<lparr>mode = 0x41, pid = 0x02, data = [0x3C, 0, 0, 0, 0, 0, 0], data_len = 1\<rparr>"
             "0x02" 32 "sensor_entry 0x0C ''Engine RPM'' ''rpm'' 2 formula_rpm"]
       sensor_unknown_pid_and_short_data
         [of "\<lparr>mode = 0x41, pid = 0x0C, data = [0x1A, 0, 0, 0, 0, 0, 0], data_len = 1\<rparr>"
             "0x02" 32 "sensor_entry 0x0C ''Engine RPM'' ''rpm'' 2 formula_rpm"]
       absent present
  show ?thesis by (simp add: sensor_entry_def)
qed

section \<open>Properties of the VIN reassembler\<close>

lemma split_crlf_not_Nil: "split_crlf s \<noteq> []"
  by (induction s) (auto split: list.splits)

lemma split_crlf_separators:
  "\<forall>c \<in> set ws. is_crlf c \<Longrightarrow> split_crlf (ws @ s) = replicate (length ws) [] @ split_crlf s"
  by (induction ws) auto

lemma split_crlf_line:
  "\<forall>c \<in> set line. \<not> is_crlf c \<Longrightarrow>
   split_crlf (line @ s) = (line @ hd (split_crlf s)) # tl (split_crlf s)"
  by (induction line) (auto simp: split_crlf_not_Nil split: list.splits)

lemma crlf_lines_separators:
  "\<forall>c \<in> set ws. is_crlf c \<Longrightarrow> crlf_lines (ws @ s) = crlf_lines s"
  by (simp add: crlf_lines_def split_crlf_separators)

lemma crlf_lines_line:
  assumes "line \<noteq> []" and "\<forall>c \<in> set line. \<not> is_crlf c" and "s = [] \<or> is_crlf (hd s)"
  shows "crlf_lines (line @ s) = line # crlf_lines s"
proof -
  from assms(3) have s: "split_crlf s = [] # tl (split_crlf s)"
    by (cases s) auto
  then have "hd (split_crlf s) = []" by (metis list.sel(1))
  with assms(1,2) have "crlf_lines (line @ s) = line # filter (\<lambda>l. l \<noteq> []) (tl (split_crlf s))"
    by (simp add: crlf_lines_def split_crlf_line)
  also have "filter (\<lambda>l. l \<noteq> []) (tl (split_crlf s)) = crlf_lines s"
    unfolding crlf_lines_def by (subst (2) s) simp
  finally show ?thesis .
qed

lemma crlf_lines_step:
  assumes "dropWhile is_crlf p \<noteq> []"
  shows "crlf_lines p =
           takeWhile (\<lambda>c. \<not> is_crlf c) (dropWhile is_crlf p) #
           crlf_lines (dropWhile (\<lambda>c. \<not> is_crlf c) (dropWhile is_crlf p))"
proof -
  define p1 where "p1 = dropWhile is_crlf p"
  define line where "line = takeWhile (\<lambda>c. \<not> is_crlf c) p1"
  define rest where "rest = dropWhile (\<lambda>c. \<not> is_crlf c) p1"
  have p: "p = takeWhile is_crlf p @ p1" by (simp add: p1_def)
  have p1: "p1 = line @ rest" by (simp add: line_def rest_def)
  from assms obtain c cs where c: "p1 = c # cs" unfolding p1_def by (cases "dropWhile is_crlf p") auto
  then have "\<not> is_crlf c" unfolding p1_def by (simp add: dropWhile_eq_Cons_conv)
  with c have ne: "line \<noteq> []" by (simp add: line_def)
  have nl: "\<forall>c \<in> set line. \<not> is_crlf c"
    unfolding line_def by (auto dest: set_takeWhileD)
  have r: "rest = [] \<or> is_crlf (hd rest)"
    unfolding rest_def using hd_dropWhile [of "\<lambda>c. \<not> is_crlf c" p1] by auto
  have "crlf_lines p = crlf_lines p1"
    by (subst p, rule crlf_lines_separators) (auto dest: set_takeWhileD)
  also have "\<dots> = line # crlf_lines rest"
    unfolding p1 by (rule crlf_lines_line [OF ne nl r])
  finally show ?thesis by (simp add: line_def rest_def p1_def)
qed

lemma crlf_lines_only_separators:
  "dropWhile is_crlf p = [] \<Longrightarrow> crlf_lines p = []"
  using crlf_lines_separators [of p "[]"] by (simp add: crlf_lines_def)

lemma take_take_append: "take n (take n xs @ ys) = take n (xs @ ys)"
  by (cases "length xs \<le> n") (simp_all add: min_def)

lemma vin_append_filter:
  "length vin \<le> OBD_VIN_LENGTH \<Longrightarrow>
   vin_append bs vin = take OBD_VIN_LENGTH (vin @ map byte_char (filter (\<lambda>b. b \<noteq> 0x00) bs))"
  by (induction bs arbitrary: vin) (auto simp: take_Cons')

lemma vin_line_frame:
  "length vin \<le> OBD_VIN_LENGTH \<Longrightarrow>
   vin_line line vin = take OBD_VIN_LENGTH (vin @ vin_frame_chars line)"
proof -
  assume l: "length vin \<le> OBD_VIN_LENGTH"
  have t: "take (if OBD_MAX_RESPONSE_LEN \<le> length line then OBD_MAX_RESPONSE_LEN - 1 else length line) line
           = take (OBD_MAX_RESPONSE_LEN - 1) line"
    by (simp add: OBD_MAX_RESPONSE_LEN_def)
  show ?thesis
    unfolding vin_line_def vin_frame_chars_def Let_def t
    using l by (auto simp: vin_append_filter split: prod.splits option.splits)
qed

lemma vin_line_length: "length vin \<le> OBD_VIN_LENGTH \<Longrightarrow> length (vin_line line vin) \<le> OBD_VIN_LENGTH"
  by (simp add: vin_line_frame)

lemma vin_loop_stop:
  "p = [] \<or> \<not> length vin < OBD_VIN_LENGTH \<or> dropWhile is_crlf p = [] \<Longrightarrow> vin_loop p vin = vin"
  by (rule trans [OF vin_loop.simps]) (auto simp add: Let_def simp del: dropWhile_eq_Nil_conv)

lemma vin_loop_step:
  "p \<noteq> [] \<Longrightarrow> length vin < OBD_VIN_LENGTH \<Longrightarrow> dropWhile is_crlf p \<noteq> [] \<Longrightarrow>
   vin_loop p vin =
     vin_loop (dropWhile (\<lambda>c. \<not> is_crlf c) (dropWhile is_crlf p))
       (vin_line (takeWhile (\<lambda>c. \<not> is_crlf c) (dropWhile is_crlf p)) vin)"
  by (rule trans [OF vin_loop.simps]) (simp add: Let_def del: dropWhile_eq_Nil_conv)

lemma vin_loop_lines:
  "length vin \<le> OBD_VIN_LENGTH \<Longrightarrow>
   vin_loop p vin = take OBD_VIN_LENGTH (vin @ concat (map vin_frame_chars (crlf_lines p)))"
proof (induction p vin rule: vin_loop.induct)
  case (1 p vin)
  show ?case
  proof (cases "p = [] \<or> \<not> length vin < OBD_VIN_LENGTH \<or> dropWhile is_crlf p = []")
    case True
    then have "vin_loop p vin = vin" by (rule vin_loop_stop)
    moreover have "take OBD_VIN_LENGTH (vin @ concat (map vin_frame_chars (crlf_lines p))) = vin"
    proof (cases "length vin < OBD_VIN_LENGTH")
      case False
      with "1.prems" show ?thesis by simp
    next
      case lt: True
      with True have "dropWhile is_crlf p = []" by auto
      then have "crlf_lines p = []" by (rule crlf_lines_only_separators)
      with "1.prems" show ?thesis by simp
    qed
    ultimately show ?thesis by simp
  next
    case False
    then have ne: "p \<noteq> []" and lt: "length vin < OBD_VIN_LENGTH"
      and p1: "dropWhile is_crlf p \<noteq> []" by auto
    define line where "line = takeWhile (\<lambda>c. \<not> is_crlf c) (dropWhile is_crlf p)"
    define rest where "rest = dropWhile (\<lambda>c. \<not> is_crlf c) (dropWhile is_crlf p)"
    have len: "length (vin_line line vin) \<le> OBD_VIN_LENGTH"
      using "1.prems" by (rule vin_line_length)
    have "\<not> (p = [] \<or> \<not> length vin < OBD_VIN_LENGTH)" using ne lt by simp
    from "1.IH" [OF this refl p1 len [unfolded line_def]]
    have IH: "vin_loop rest (vin_line line vin) =
        take OBD_VIN_LENGTH (vin_line line vin @ concat (map vin_frame_chars (crlf_lines rest)))"
      by (simp only: line_def rest_def)
    have "vin_loop p vin = vin_loop rest (vin_line line vin)"
      unfolding line_def rest_def by (rule vin_loop_step [OF ne lt p1])
    also note IH
    also have "vin_line line vin = take OBD_VIN_LENGTH (vin @ vin_frame_chars line)"
      using "1.prems" by (rule vin_line_frame)
    also have "take OBD_VIN_LENGTH (take OBD_VIN_LENGTH (vin @ vin_frame_chars line) @
                 concat (map vin_frame_chars (crlf_lines rest))) =
               take OBD_VIN_LENGTH (vin @ concat (map vin_frame_chars (line # crlf_lines rest)))"
      by (simp only: take_take_append) simp
    also have "line # crlf_lines rest = crlf_lines p"
      unfolding line_def rest_def by (rule crlf_lines_step [OF p1, symmetric])
    finally show ?thesis .
  qed
qed


text \<open>
  Claim C6.  Called with a buffer of at least 18 characters, \<open>obd_vin_parse_response\<close>
  splits the response at CR and LF, takes from each line the characters of
  \<open>vin_frame_chars\<close> (none unless the line decodes to at least four bytes beginning
  \<open>0x49, 0x02\<close>; the sequence number at index 2 is passed over unread), keeps the first
  17 characters of their concatenation, and returns \<open>OBD_OK\<close> exactly when 17 were
  gathered, \<open>OBD_ERROR_PARSE_FAILED\<close> otherwise.  A single frame alone fails.
\<close>

theorem vin_parse_response_frames:
  "(OBD_VIN_LENGTH + 1 \<le> vin_size \<longrightarrow>
      obd_vin_parse_response response vin_size =
        (let acc = take OBD_VIN_LENGTH
                     (concat (map vin_frame_chars (crlf_lines (c_str response))))
         in if length acc = OBD_VIN_LENGTH then (OBD_OK, Some acc)
            else (OBD_ERROR_PARSE_FAILED, Some acc))) \<and>
   obd_vin_parse_response ''49 02 01 57 42 41 33'' 18 = (OBD_ERROR_PARSE_FAILED, Some ''WBA3'')"
proof -
  have general: "obd_vin_parse_response r n =
        (let acc = take OBD_VIN_LENGTH (concat (map vin_frame_chars (crlf_lines (c_str r))))
         in if length acc = OBD_VIN_LENGTH then (OBD_OK, Some acc)
            else (OBD_ERROR_PARSE_FAILED, Some acc))"
    if "OBD_VIN_LENGTH + 1 \<le> n" for r n
  proof -
    from that have "n \<noteq> 0" and "\<not> n < OBD_VIN_LENGTH + 1" by simp_all
    moreover have "vin_loop (c_str r) [] =
        take OBD_VIN_LENGTH (concat (map vin_frame_chars (crlf_lines (c_str r))))"
      using vin_loop_lines [of "[]" "c_str r"] by simp
    ultimately show ?thesis
      by (simp add: obd_vin_parse_response_def Let_def)
  qed
  have e: "take OBD_VIN_LENGTH
             (concat (map vin_frame_chars (crlf_lines (c_str ''49 02 01 57 42 41 33'')))) = ''WBA3''"
    by code_simp
  have "OBD_VIN_LENGTH + 1 \<le> 18" by (simp add: OBD_VIN_LENGTH_def)
  from general [OF this, of "''49 02 01 57 42 41 33''"]
  have "obd_vin_parse_response ''49 02 01 57 42 41 33'' 18 =
          (OBD_ERROR_PARSE_FAILED, Some ''WBA3'')"
    by (simp only: e) (simp add: OBD_VIN_LENGTH_def)
  with general show ?thesis by blast
qed

theorem vin_parse_response_frames_witness:
  "OBD_VIN_LENGTH + 1 \<le> 18 \<and>
   obd_vin_parse_response vin_transcript 18 = (OBD_OK, Some ''WBA3B5FK7FN123456'')"
proof -
  have e: "take OBD_VIN_LENGTH (concat (map vin_frame_chars (crlf_lines (c_str vin_transcript))))
             = ''WBA3B5FK7FN123456''"
    by code_simp
  have s: "OBD_VIN_LENGTH + 1 \<le> 18" by (simp add: OBD_VIN_LENGTH_def)
  from vin_parse_response_frames [of 18 vin_transcript] s
  have "obd_vin_parse_response vin_transcript 18 = 
          (let acc = take OBD_VIN_LENGTH
                     (concat (map vin_frame_chars (crlf_lines (c_str vin_transcript))))
           in if length acc = OBD_VIN_LENGTH then (OBD_OK, Some acc)
              else (OBD_ERROR_PARSE_FAILED, Some acc))"
    by blast
  then have "obd_vin_parse_response vin_transcript 18 = (OBD_OK, Some ''WBA3B5FK7FN123456'')"
    by (simp only: e) (simp add: OBD_VIN_LENGTH_def)
  with s show ?thesis by simp
qed

lemma byte_char_not_nul: "b \<noteq> 0x00 \<Longrightarrow> byte_char b \<noteq> CHR 0x00"
proof -
  assume "b \<noteq> 0x00"
  then have "unat b \<noteq> 0" by (simp add: unat_eq_0)
  moreover have "unat b < 2 ^ 8" using unsigned_less [of b, where 'a = nat] by simp
  ultimately have "take_bit 8 (unat b) \<noteq> 0" by (simp add: take_bit_nat_eq_self)
  then show ?thesis by (simp add: byte_char_def char_of_eq_iff)
qed

text \<open>
  Claim C10.  A zero byte is dropped wherever it stands in the data of a qualifying frame:
  when the data are \<open>pre @ 0x00 # post\<close>, the characters of \<open>post\<close> follow those of
  \<open>pre\<close> directly, one position earlier than the bytes stood, no NUL is stored, and no
  error arises: the transcript with a zero inside its first frame still yields the VIN.
\<close>

theorem vin_null_bytes_dropped:
  "(obd_hex_to_bytes (take (OBD_MAX_RESPONSE_LEN - 1) line) 16 =
       (OBD_OK, Some (0x49 # 0x02 # sq # pre @ 0x00 # post)) \<and>
    length vin \<le> OBD_VIN_LENGTH \<longrightarrow>
      vin_line line vin =
        take OBD_VIN_LENGTH
          (vin @ map byte_char (filter (\<lambda>b. b \<noteq> 0x00) pre) @
                 map byte_char (filter (\<lambda>b. b \<noteq> 0x00) post)) \<and>
      CHR 0x00 \<notin> set (drop (length vin) (vin_line line vin))) \<and>
   obd_vin_parse_response vin_transcript_interior_null 18 =
     (OBD_OK, Some ''WBA3B5FK7FN123456'')"
proof (intro conjI impI)
  assume a: "obd_hex_to_bytes (take (OBD_MAX_RESPONSE_LEN - 1) line) 16 =
       (OBD_OK, Some (0x49 # 0x02 # sq # pre @ 0x00 # post)) \<and>
    length vin \<le> OBD_VIN_LENGTH"
  then have f: "vin_frame_chars line =
      map byte_char (filter (\<lambda>b. b \<noteq> 0x00) pre) @ map byte_char (filter (\<lambda>b. b \<noteq> 0x00) post)"
    by (simp add: vin_frame_chars_def)
  with a show v: "vin_line line vin =
        take OBD_VIN_LENGTH
          (vin @ map byte_char (filter (\<lambda>b. b \<noteq> 0x00) pre) @
                 map byte_char (filter (\<lambda>b. b \<noteq> 0x00) post))"
    by (simp add: vin_line_frame)
  have nn: "CHR 0x00 \<noteq> byte_char x" if "x \<noteq> 0x00" for x
    using byte_char_not_nul [OF that] by simp
  have "CHR 0x00 \<notin> set (map byte_char (filter (\<lambda>b. b \<noteq> 0x00) pre) @
                 map byte_char (filter (\<lambda>b. b \<noteq> 0x00) post))"
    using nn by auto
  then show "CHR 0x00 \<notin> set (drop (length vin) (vin_line line vin))"
    unfolding v using a by (auto simp: drop_take dest: in_set_takeD)
next
  have e: "take OBD_VIN_LENGTH
             (concat (map vin_frame_chars (crlf_lines (c_str vin_transcript_interior_null)))) =
           ''WBA3B5FK7FN123456''"
    by code_simp
  have "vin_loop (c_str vin_transcript_interior_null) [] = ''WBA3B5FK7FN123456''"
    using vin_loop_lines [of "[]" "c_str vin_transcript_interior_null"] e by simp
  then show "obd_vin_parse_response vin_transcript_interior_null 18 =
     (OBD_OK, Some ''WBA3B5FK7FN123456'')"
    by (simp add: obd_vin_parse_response_def OBD_VIN_LENGTH_def)
qed

theorem vin_null_bytes_dropped_witness:
  "obd_hex_to_bytes (take (OBD_MAX_RESPONSE_LEN - 1) ''49 02 01 57 00 42 41'') 16 =
       (OBD_OK, Some (0x49 # 0x02 # 0x01 # [0x57] @ 0x00 # [0x42, 0x41])) \<and>
   length ''X'' \<le> OBD_VIN_LENGTH \<and>
   vin_line ''49 02 01 57 00 42 41'' ''X'' = ''XWBA''"
proof -
  have h: "obd_hex_to_bytes (take (OBD_MAX_RESPONSE_LEN - 1) ''49 02 01 57 00 42 41'') 16 =
       (OBD_OK, Some (0x49 # 0x02 # 0x01 # [0x57] @ 0x00 # [0x42, 0x41]))"
    by code_simp
  have l: "length ''X'' \<le> OBD_VIN_LENGTH" by (simp add: OBD_VIN_LENGTH_def)
  have e: "take OBD_VIN_LENGTH
          (''X'' @ map byte_char (filter (\<lambda>b. b \<noteq> 0x00) [0x57]) @
                 map byte_char (filter (\<lambda>b. b \<noteq> 0x00) [0x42, 0x41])) = ''XWBA''"
    by code_simp
  from vin_null_bytes_dropped [of "''49 02 01 57 00 42 41''" "0x01" "[0x57]" "[0x42, 0x41]" "''X''"]
       h l e
  show ?thesis by simp
qed

section \<open>Properties of the response cleaner\<close>

lemma nibble_le_15: "hex_char_to_nibble c \<le> 15"
  by (auto simp: hex_char_to_nibble_def char_code_def)

lemma nibbles_or_add:
  assumes "0 \<le> lo" and "lo < 16"
  shows "push_bit 4 hi OR lo = 16 * hi + (lo :: int)"
proof -
  have l: "take_bit 4 lo = lo" using assms by (simp add: take_bit_int_eq_self)
  have "push_bit 4 hi + take_bit 4 lo = push_bit 4 hi OR take_bit 4 lo"
    by (rule disjunctive_add_eq_or) (auto simp: bit_eq_iff bit_simps)
  then show ?thesis unfolding l by (simp add: push_bit_eq_mult)
qed

lemma elm_lines_stop:
  assumes "dropWhile is_crlf p = [] \<or> hd (dropWhile is_crlf p) = CHR ''>''"
  shows "elm_lines p = []"
proof -
  define ws where "ws = takeWhile is_crlf p"
  define p1 where "p1 = dropWhile is_crlf p"
  have p: "p = ws @ p1" by (simp add: ws_def p1_def)
  have ws: "\<forall>c \<in> set ws. is_crlf c" unfolding ws_def by (auto dest: set_takeWhileD)
  then have ws': "\<forall>c \<in> set ws. c \<noteq> CHR ''>''" by (auto simp: is_crlf_def)
  from assms have "takeWhile (\<lambda>c. c \<noteq> CHR ''>'') p1 = []"
    unfolding p1_def [symmetric] by (cases p1) auto
  then have "takeWhile (\<lambda>c. c \<noteq> CHR ''>'') p = ws"
    unfolding p using ws' by (simp add: takeWhile_append2)
  then show ?thesis
    using crlf_lines_separators [OF ws, of "[]"] by (simp add: elm_lines_def crlf_lines_def)
qed

lemma elm_lines_step:
  assumes "dropWhile is_crlf p \<noteq> []" and "hd (dropWhile is_crlf p) \<noteq> CHR ''>''"
  shows "elm_lines p =
           takeWhile in_line (dropWhile is_crlf p) #
           elm_lines (dropWhile in_line (dropWhile is_crlf p))"
proof -
  define ws where "ws = takeWhile is_crlf p"
  define p1 where "p1 = dropWhile is_crlf p"
  define line where "line = takeWhile in_line p1"
  define rest where "rest = dropWhile in_line p1"
  define s where "s = takeWhile (\<lambda>c. c \<noteq> CHR ''>'') rest"
  have p: "p = ws @ p1" by (simp add: ws_def p1_def)
  have p1: "p1 = line @ rest" by (simp add: line_def rest_def)
  have ws: "\<forall>c \<in> set ws. is_crlf c" unfolding ws_def by (auto dest: set_takeWhileD)
  then have ws': "\<forall>c \<in> set ws. c \<noteq> CHR ''>''" by (auto simp: is_crlf_def)
  from assms obtain c cs where c: "p1 = c # cs" unfolding p1_def [symmetric] by (cases p1) auto
  then have "\<not> is_crlf c" unfolding p1_def by (simp add: dropWhile_eq_Cons_conv)
  moreover from assms(2) c have "c \<noteq> CHR ''>''" unfolding p1_def [symmetric] by simp
  ultimately have "in_line c" by (simp add: in_line_def is_crlf_def)
  with c have ne: "line \<noteq> []" by (simp add: line_def)
  have il: "\<forall>c \<in> set line. in_line c" unfolding line_def by (auto dest: set_takeWhileD)
  then have nl: "\<forall>c \<in> set line. \<not> is_crlf c" and ng: "\<forall>c \<in> set line. c \<noteq> CHR ''>''"
    by (auto simp: in_line_def is_crlf_def)
  have r: "rest = [] \<or> \<not> in_line (hd rest)"
    unfolding rest_def using hd_dropWhile [of in_line p1] by auto
  have sr: "s = [] \<or> is_crlf (hd s)"
  proof (cases rest)
    case Nil
    then show ?thesis by (simp add: s_def)
  next
    case (Cons d ds)
    with r have "\<not> in_line d" by simp
    with Cons show ?thesis by (auto simp: s_def in_line_def is_crlf_def)
  qed
  have "takeWhile (\<lambda>c. c \<noteq> CHR ''>'') p = ws @ line @ s"
    unfolding p p1 s_def using ws' ng by (simp add: takeWhile_append2)
  then have "elm_lines p = crlf_lines (ws @ line @ s)" by (simp add: elm_lines_def)
  also have "\<dots> = crlf_lines (line @ s)" by (rule crlf_lines_separators [OF ws])
  also have "\<dots> = line # crlf_lines s" by (rule crlf_lines_line [OF ne nl sr])
  also have "crlf_lines s = elm_lines rest" by (simp add: elm_lines_def s_def)
  finally show ?thesis by (simp add: line_def rest_def p1_def)
qed


lemma clean_line_kept:
  assumes "length out < out_size"
  shows "clean_line line out_size (out, out \<noteq> []) =
           (let lp = dropWhile is_space_tab line
            in if kept_line lp
               then (if out_size \<le> length (add_line out lp) then None
                     else Some (add_line out lp, True))
               else Some (out, out \<noteq> []))"
proof -
  define lp where "lp = dropWhile is_space_tab line"
  have t: "take (if OBD_MAX_RESPONSE_LEN \<le> length lp then OBD_MAX_RESPONSE_LEN - 1 else length lp) lp
           = take (OBD_MAX_RESPONSE_LEN - 1) lp"
    by (simp add: OBD_MAX_RESPONSE_LEN_def)
  show ?thesis
  proof (cases lp)
    case Nil
    then show ?thesis
      unfolding clean_line_def Let_def lp_def [symmetric]
      by (simp add: kept_line_def line_first_byte_def)
  next
    case (Cons c cs)
    show ?thesis
    proof (cases cs)
      case Nil
      with Cons show ?thesis
        unfolding clean_line_def Let_def lp_def [symmetric]
        by (simp add: kept_line_def line_first_byte_def)
    next
      case (Cons d rest)
      with \<open>lp = c # cs\<close> have lp: "lp = c # d # rest" by simp
      have or: "0 \<le> hex_char_to_nibble d \<Longrightarrow>
            push_bit 4 (hex_char_to_nibble c) OR hex_char_to_nibble d =
            16 * hex_char_to_nibble c + hex_char_to_nibble d"
        using nibble_le_15 [of d] by (intro nibbles_or_add) auto
      show ?thesis
        unfolding clean_line_def Let_def lp_def [symmetric] t kept_line_def line_first_byte_def
        unfolding lp
        using assms or
        by (auto simp: add_line_def not_less)
    qed
  qed
qed

lemma add_line_length: "length out \<le> length (add_line out lp)"
  by (simp add: add_line_def)

lemma foldl_add_line_length: "length out \<le> length (foldl add_line out ks)"
proof (induction ks arbitrary: out)
  case Nil
  show ?case by simp
next
  case (Cons k ks)
  have "length out \<le> length (add_line out k)" by (rule add_line_length)
  also have "\<dots> \<le> length (foldl add_line (add_line out k) ks)" by (rule Cons.IH)
  finally show ?case by simp
qed

lemma kept_line_not_Nil: "kept_line lp \<Longrightarrow> lp \<noteq> []"
  by (auto simp: kept_line_def line_first_byte_def)

lemma foldl_add_line_join:
  "\<forall>k \<in> set ks. k \<noteq> [] \<Longrightarrow>
   foldl add_line out ks = (if out = [] then join_cr ks else join_cr (out # ks))"
proof (induction ks arbitrary: out)
  case Nil
  show ?case by simp
next
  case (Cons k ks)
  then have k: "k \<noteq> []" and ks: "\<forall>k \<in> set ks. k \<noteq> []" by simp_all
  have a: "add_line out k \<noteq> []" using k by (simp add: add_line_def)
  show ?case
    using Cons.IH [OF ks, of "add_line out k"] a k
    by (cases ks) (auto simp: add_line_def)
qed

lemma clean_response_loop_stop:
  "p = [] \<or> dropWhile is_crlf p = [] \<or> hd (dropWhile is_crlf p) = CHR ''>'' \<Longrightarrow>
   clean_response_loop p out_size st = Some st"
  by (rule trans [OF clean_response_loop.simps])
     (auto simp add: Let_def simp del: dropWhile_eq_Nil_conv)

lemma clean_response_loop_step:
  "dropWhile is_crlf p \<noteq> [] \<Longrightarrow> hd (dropWhile is_crlf p) \<noteq> CHR ''>'' \<Longrightarrow>
   clean_response_loop p out_size st =
     (case clean_line (takeWhile in_line (dropWhile is_crlf p)) out_size st of
        None \<Rightarrow> None
      | Some st' \<Rightarrow> clean_response_loop (dropWhile in_line (dropWhile is_crlf p)) out_size st')"
  by (rule trans [OF clean_response_loop.simps])
     (auto simp add: Let_def simp del: dropWhile_eq_Nil_conv)

lemma clean_response_loop_lines:
  "snd st = (fst st \<noteq> []) \<Longrightarrow> length (fst st) < out_size \<Longrightarrow>
   clean_response_loop p out_size st =
     (let total = foldl add_line (fst st) (data_lines p)
      in if out_size \<le> length total then None else Some (total, total \<noteq> []))"
proof (induction p out_size st rule: clean_response_loop.induct)
  case (1 p out_size st)
  obtain out where st: "st = (out, out \<noteq> [])"
    using "1.prems"(1) by (cases st) auto
  have len: "length out < out_size" using "1.prems"(2) st by simp
  show ?case
  proof (cases "p = [] \<or> dropWhile is_crlf p = [] \<or> hd (dropWhile is_crlf p) = CHR ''>''")
    case True
    then have "elm_lines p = []" by (auto intro: elm_lines_stop)
    with True len show ?thesis
      by (simp add: clean_response_loop_stop data_lines_def st del: dropWhile_eq_Nil_conv)
  next
    case False
    then have ne: "p \<noteq> []" and p1: "dropWhile is_crlf p \<noteq> []"
      and gt: "hd (dropWhile is_crlf p) \<noteq> CHR ''>''"
      and nstop: "\<not> (dropWhile is_crlf p = [] \<or> hd (dropWhile is_crlf p) = CHR ''>'')"
      by auto
    define line where "line = takeWhile in_line (dropWhile is_crlf p)"
    define rest where "rest = dropWhile in_line (dropWhile is_crlf p)"
    define lp where "lp = dropWhile is_space_tab line"
    have lines: "data_lines p = (if kept_line lp then [lp] else []) @ data_lines rest"
      by (simp add: data_lines_def elm_lines_step [OF p1 gt] line_def rest_def lp_def)
    have step: "clean_response_loop p out_size st =
       (case clean_line line out_size st of
          None \<Rightarrow> None
        | Some st' \<Rightarrow> clean_response_loop rest out_size st')"
      unfolding line_def rest_def by (rule clean_response_loop_step [OF p1 gt])
    note cl = clean_line_kept [OF len, of line, unfolded Let_def, folded lp_def st]
    have IH: "clean_response_loop rest out_size st' =
        (let total = foldl add_line (fst st') (data_lines rest)
         in if out_size \<le> length total then None else Some (total, total \<noteq> []))"
      if "clean_line line out_size st = Some st'" "snd st' = (fst st' \<noteq> [])"
         "length (fst st') < out_size" for st'
      using "1.IH" [OF ne refl nstop that(1) [unfolded line_def] that(2,3)]
      by (simp only: rest_def)
    show ?thesis
    proof (cases "kept_line lp")
      case nk: False
      with cl have c: "clean_line line out_size st = Some st" by (simp add: st)
      from IH [OF c "1.prems"] nk show ?thesis unfolding step c by (simp add: lines)
    next
      case k: True
      show ?thesis
      proof (cases "out_size \<le> length (add_line out lp)")
        case True
        with cl k have c: "clean_line line out_size st = None" by simp
        have "length (add_line out lp) \<le> length (foldl add_line (add_line out lp) (data_lines rest))"
          by (rule foldl_add_line_length)
        with True have "out_size \<le> length (foldl add_line (add_line out lp) (data_lines rest))"
          by simp
        with k show ?thesis unfolding step c by (simp add: lines st)
      next
        case fits: False
        have a: "add_line out lp \<noteq> []" using kept_line_not_Nil [OF k] by (simp add: add_line_def)
        with cl k fits have c: "clean_line line out_size st = Some (add_line out lp, True)" by simp
        from IH [OF c] a fits k show ?thesis unfolding step c by (simp add: lines st)
      qed
    qed
  qed
qed


lemma join_cr_Nil_iff: "\<forall>k \<in> set ks. k \<noteq> [] \<Longrightarrow> join_cr ks = [] \<longleftrightarrow> ks = []"
  by (induction ks rule: join_cr.induct) auto

lemma strstr_sublist: "strstr haystack needle \<longleftrightarrow> sublist needle haystack"
  by (induction haystack) (simp_all add: sublist_Cons_right)

lemma clean_response_data_lines:
  assumes "0 < out_size"
  shows "obd_elm327_clean_response raw out_size =
     (let kept = data_lines (c_str raw)
      in if out_size \<le> length (join_cr kept) then (OBD_ERROR_BUFFER_TOO_SMALL, None)
         else if kept = [] then
           (if sublist ''NO DATA'' (c_str raw) then (OBD_ERROR_NO_DATA, Some [])
            else if sublist ''?'' (c_str raw) \<or> sublist ''ERROR'' (c_str raw)
              then (OBD_ERROR_ELM_ERROR, Some [])
            else (OBD_ERROR_PARSE_FAILED, Some []))
         else (OBD_OK, Some (trim_trailing (join_cr kept))))"
proof -
  define kept where "kept = data_lines (c_str raw)"
  have ne: "\<forall>k \<in> set kept. k \<noteq> []"
    by (auto simp: kept_def data_lines_def dest: kept_line_not_Nil)
  have j: "foldl add_line [] kept = join_cr kept"
    using foldl_add_line_join [OF ne, of "[]"] by simp
  have "clean_response_loop (c_str raw) out_size ([], False) =
     (if out_size \<le> length (join_cr kept) then None
      else Some (join_cr kept, kept \<noteq> []))"
    using clean_response_loop_lines [of "([], False)" out_size "c_str raw"] assms
    by (simp add: Let_def j join_cr_Nil_iff [OF ne] flip: kept_def)
  with assms show ?thesis
    unfolding obd_elm327_clean_response_def Let_def kept_def [symmetric]
    by (simp add: strstr_sublist)
qed

text \<open>
  Claim C3, as the program has it.  The test on a Data line is \<open>first_byte < 0x40\<close>: a
  Data line is dropped as an echo when its first byte is below \<open>0x40\<close> (or when it does not
  begin with two hex digits) and kept when its first byte is \<open>0x40\<close> or more.  So, when
  some line is kept and the payload fits the buffer, the payload is exactly the kept lines
  in order, joined by single CRs, with trailing spaces and tabs removed; the dropped lines
  contribute nothing.  The echoed request \<open>010C\<close> followed by the line \<open>41 0C 1A F8\<close> and
  the prompt gives \<open>41 0C 1A F8\<close>.
\<close>

theorem clean_response_keeps_data_lines:
  "(0 < out_size \<and> data_lines (c_str raw) \<noteq> [] \<and>
    length (join_cr (data_lines (c_str raw))) < out_size \<longrightarrow>
      obd_elm327_clean_response raw out_size =
        (OBD_OK, Some (trim_trailing (join_cr (data_lines (c_str raw)))))) \<and>
   obd_elm327_clean_response rpm_transcript 64 = (OBD_OK, Some ''41 0C 1A F8'')"
proof (intro conjI impI)
  assume "0 < out_size \<and> data_lines (c_str raw) \<noteq> [] \<and>
    length (join_cr (data_lines (c_str raw))) < out_size"
  then show "obd_elm327_clean_response raw out_size =
        (OBD_OK, Some (trim_trailing (join_cr (data_lines (c_str raw)))))"
    by (simp add: clean_response_data_lines Let_def)
next
  have d: "data_lines (c_str rpm_transcript) = [''41 0C 1A F8'']" by code_simp
  have t: "trim_trailing ''41 0C 1A F8'' = ''41 0C 1A F8''" by code_simp
  show "obd_elm327_clean_response rpm_transcript 64 = (OBD_OK, Some ''41 0C 1A F8'')"
    by (simp add: clean_response_data_lines [of 64] d t)
qed

theorem clean_response_keeps_data_lines_witness:
  "data_lines (c_str (''41 0D 3C '' @ [CHR 0x0D] @ ''>'')) = [''41 0D 3C ''] \<and>
   length (join_cr [''41 0D 3C '']) < (16 :: nat) \<and>
   obd_elm327_clean_response (''41 0D 3C '' @ [CHR 0x0D] @ ''>'') 16 = (OBD_OK, Some ''41 0D 3C'')"
proof -
  have d: "data_lines (c_str (''41 0D 3C '' @ [CHR 0x0D] @ ''>'')) = [''41 0D 3C '']"
    by code_simp
  have t: "trim_trailing ''41 0D 3C '' = ''41 0D 3C''" by code_simp
  from clean_response_keeps_data_lines [of 16 "''41 0D 3C '' @ [CHR 0x0D] @ ''>''"] d t
  show ?thesis by simp
qed

text \<open>
  The claim as stated drops every Data line whose first byte has bit \<open>0x40\<close> clear.  The
  line \<open>81 0C\<close> is Data and its first byte \<open>0x81\<close> has that bit clear, yet it is kept.
\<close>

theorem clean_response_high_bit_counterexample:
  "obd_elm327_classify_response ''81 0C'' = OBD_ELM_RESPONSE_DATA \<and>
   push_bit 4 (hex_char_to_nibble CHR ''8'') OR hex_char_to_nibble CHR ''1'' = 0x81 \<and>
   (0x81 :: int) AND 0x40 = 0 \<and>
   obd_elm327_clean_response high_bit_transcript 64 = (OBD_OK, Some ''81 0C'')"
proof -
  have c: "obd_elm327_classify_response ''81 0C'' = OBD_ELM_RESPONSE_DATA" by code_simp
  have b: "push_bit 4 (hex_char_to_nibble CHR ''8'') OR hex_char_to_nibble CHR ''1'' = 0x81"
    by code_simp
  have a: "(0x81 :: int) AND 0x40 = 0" by simp
  have d: "data_lines (c_str high_bit_transcript) = [''81 0C'']" by code_simp
  have t: "trim_trailing ''81 0C'' = ''81 0C''" by code_simp
  have "obd_elm327_clean_response high_bit_transcript 64 = (OBD_OK, Some ''81 0C'')"
    by (simp add: clean_response_data_lines [of 64] d t)
  with c b a show ?thesis by simp
qed

text \<open>
  Claim C9.  When no line is kept, the cleaner stores the empty text and returns
  \<open>OBD_ERROR_NO_DATA\<close> if the raw text contains \<open>NO DATA\<close>, else \<open>OBD_ERROR_ELM_ERROR\<close> if
  it contains \<open>?\<close> or \<open>ERROR\<close>, else \<open>OBD_ERROR_PARSE_FAILED\<close>; the test for \<open>NO DATA\<close>
  comes first.
\<close>

theorem clean_response_no_data_line:
  "(0 < out_size \<and> data_lines (c_str raw) = [] \<longrightarrow>
      obd_elm327_clean_response raw out_size =
        (if sublist ''NO DATA'' (c_str raw) then (OBD_ERROR_NO_DATA, Some [])
         else if sublist ''?'' (c_str raw) \<or> sublist ''ERROR'' (c_str raw)
           then (OBD_ERROR_ELM_ERROR, Some [])
         else (OBD_ERROR_PARSE_FAILED, Some []))) \<and>
   obd_elm327_clean_response no_data_transcript 64 = (OBD_ERROR_NO_DATA, Some [])"
proof (intro conjI impI)
  assume "0 < out_size \<and> data_lines (c_str raw) = []"
  then show "obd_elm327_clean_response raw out_size =
        (if sublist ''NO DATA'' (c_str raw) then (OBD_ERROR_NO_DATA, Some [])
         else if sublist ''?'' (c_str raw) \<or> sublist ''ERROR'' (c_str raw)
           then (OBD_ERROR_ELM_ERROR, Some [])
         else (OBD_ERROR_PARSE_FAILED, Some []))"
    by (simp add: clean_response_data_lines Let_def)
next
  have d: "data_lines (c_str no_data_transcript) = []" by code_simp
  have "strstr (c_str no_data_transcript) ''NO DATA''" by code_simp
  then have n: "sublist ''NO DATA'' (c_str no_data_transcript)" by (simp only: strstr_sublist)
  show "obd_elm327_clean_response no_data_transcript 64 = (OBD_ERROR_NO_DATA, Some [])"
    by (simp add: clean_response_data_lines [of 64] d n)
qed

theorem clean_response_no_data_line_witness:
  "data_lines (c_str (''?'' @ [CHR 0x0D] @ ''>'')) = [] \<and>
   \<not> sublist ''NO DATA'' (c_str (''?'' @ [CHR 0x0D] @ ''>'')) \<and>
   sublist ''?'' (c_str (''?'' @ [CHR 0x0D] @ ''>'')) \<and>
   obd_elm327_clean_response (''?'' @ [CHR 0x0D] @ ''>'') 8 = (OBD_ERROR_ELM_ERROR, Some [])"
proof -
  have d: "data_lines (c_str (''?'' @ [CHR 0x0D] @ ''>'')) = []" by code_simp
  have "\<not> strstr (c_str (''?'' @ [CHR 0x0D] @ ''>'')) ''NO DATA''" by code_simp
  then have n: "\<not> sublist ''NO DATA'' (c_str (''?'' @ [CHR 0x0D] @ ''>''))"
    unfolding strstr_sublist .
  have "strstr (c_str (''?'' @ [CHR 0x0D] @ ''>'')) ''?''" by code_simp
  then have q: "sublist ''?'' (c_str (''?'' @ [CHR 0x0D] @ ''>''))"
    by (simp only: strstr_sublist)
  from clean_response_no_data_line [of 8 "''?'' @ [CHR 0x0D] @ ''>''"] d n q
  show ?thesis by simp
qed

end
